theory Spec2Isabelle
  imports Main
begin

section \<open>Python values and string primitives used by chanop.py\<close>

text \<open>
  The script is Python 2: strings are byte strings (\<^typ>\<open>string\<close>), integers are unbounded
  (\<^typ>\<open>int\<close>), and every operation that can raise is modelled with a result in
  \<open>py_error + 'a\<close>, \<open>Inl\<close> carrying the exception.
\<close>

datatype py_error = IndexError | KeyError | ValueError | TypeError | AssertionError

text \<open>\<open>str.lower()\<close> on a byte string: only the ASCII letters \<open>A\<close>..\<open>Z\<close> change.\<close>

definition lower_char :: "char \<Rightarrow> char" where
  "lower_char c =
     (let n = (of_char c :: nat) in if 65 \<le> n \<and> n \<le> 90 then char_of (n + 32) else c)"

definition upper_char :: "char \<Rightarrow> char" where
  "upper_char c =
     (let n = (of_char c :: nat) in if 97 \<le> n \<and> n \<le> 122 then char_of (n - 32) else c)"

definition str_lower :: "string \<Rightarrow> string" where
  "str_lower s = map lower_char s"

definition str_upper :: "string \<Rightarrow> string" where
  "str_upper s = map upper_char s"

text \<open>\<open>s.find(c)\<close> for a one-character \<open>c\<close>: the first index, or \<open>-1\<close>.\<close>

definition str_find :: "string \<Rightarrow> char \<Rightarrow> int" where
  "str_find s c =
     (if c \<in> set s then int (length (takeWhile (\<lambda>x. x \<noteq> c) s)) else - 1)"

text \<open>\<open>s.count(c)\<close> for a one-character \<open>c\<close>.\<close>

definition str_count :: "string \<Rightarrow> char \<Rightarrow> nat" where
  "str_count s c = length (filter (\<lambda>x. x = c) s)"

text \<open>
  Slices \<open>s[a:b]\<close>, \<open>s[a:]\<close> and \<open>s[:b]\<close>: a negative bound counts from the end, and a
  bound outside the string is clipped; a slice never raises.
\<close>

definition norm_index :: "nat \<Rightarrow> int \<Rightarrow> nat" where
  "norm_index n i =
     (let j = (if i < 0 then i + int n else i)
      in if j < 0 then 0 else if j > int n then n else nat j)"

definition slice :: "'a list \<Rightarrow> int \<Rightarrow> int \<Rightarrow> 'a list" where
  "slice s a b =
     (let lo = norm_index (length s) a; hi = norm_index (length s) b
      in take (hi - lo) (drop lo s))"

definition slice_from :: "'a list \<Rightarrow> int \<Rightarrow> 'a list" where
  "slice_from s a = drop (norm_index (length s) a) s"

definition slice_to :: "'a list \<Rightarrow> int \<Rightarrow> 'a list" where
  "slice_to s b = take (norm_index (length s) b) s"

text \<open>Indexing \<open>s[i]\<close> raises \<open>IndexError\<close> outside the string.\<close>

definition index :: "'a list \<Rightarrow> int \<Rightarrow> py_error + 'a" where
  "index s i =
     (let n = int (length s); j = (if i < 0 then n + i else i)
      in if 0 \<le> j \<and> j < n then Inr (s ! nat j) else Inl IndexError)"

text \<open>\<open>sub in s\<close> on strings: \<open>sub\<close> occurs as a contiguous piece of \<open>s\<close>.\<close>

fun str_contains :: "string \<Rightarrow> string \<Rightarrow> bool" where
  "str_contains sub [] = (sub = [])"
| "str_contains sub (c # cs) =
     (take (length sub) (c # cs) = sub \<or> str_contains sub cs)"

text \<open>\<open>s.split(sep)\<close> with a one-character separator: empty pieces are kept.\<close>

fun split_on :: "char \<Rightarrow> string \<Rightarrow> string list" where
  "split_on sep [] = [[]]"
| "split_on sep (c # cs) =
     (if c = sep then [] # split_on sep cs
      else (case split_on sep cs of
              [] \<Rightarrow> [[c]]
            | p # ps \<Rightarrow> (c # p) # ps))"

text \<open>\<open>sep.join(xs)\<close>.\<close>

fun join :: "string \<Rightarrow> string list \<Rightarrow> string" where
  "join sep [] = []"
| "join sep [x] = x"
| "join sep (x # y # ys) = x @ sep @ join sep (y # ys)"

text \<open>\<open>str(n)\<close> for an integer: decimal digits, with a minus sign below zero.\<close>

fun digits :: "nat \<Rightarrow> string" where
  "digits n =
     (if n < 10 then [char_of (48 + n)]
      else digits (n div 10) @ [char_of (48 + n mod 10)])"

definition str_of_int :: "int \<Rightarrow> string" where
  "str_of_int i = (if i < 0 then CHR ''-'' # digits (nat (- i)) else digits (nat i))"


section \<open>IRC utilities\<close>

text \<open>
  \<open>is_hostmask(s)\<close>: a \<open>!\<close> after at least one character, an \<open>@\<close> at least two
  places further, and something after the \<open>@\<close>.
\<close>

definition is_hostmask :: "string \<Rightarrow> bool" where
  "is_hostmask s =
     (let n = str_find s CHR ''!''; m = str_find s CHR ''@''
      in n < m - 1 \<and> n \<ge> 1 \<and> m \<ge> 3 \<and> int (length s) > m + 1)"

text \<open>
  \<open>get_nick(s)\<close>. The read \<open>s[0]\<close> is the one operation of the body that can raise.
\<close>

definition get_nick :: "string \<Rightarrow> py_error + string" where
  "get_nick s =
     (let n = str_find s CHR ''!'' in
      if n < 1 then Inr ''''
      else (case index s 0 of
              Inl e \<Rightarrow> Inl e
            | Inr c \<Rightarrow> if c = CHR '':'' then Inr (slice s 1 n) else Inr (slice_to s n)))"

text \<open>
  \<open>get_user(s, trim)\<close>. With \<open>trim\<close> the body reads \<open>s[0]\<close> of the extracted user
  part, which raises \<open>IndexError\<close> when that part is empty.
\<close>

definition get_user :: "string \<Rightarrow> bool \<Rightarrow> py_error + string" where
  "get_user s trim =
     (let n = str_find s CHR ''!''; m = str_find s CHR ''@'' in
      if n > 0 \<and> m > 2 \<and> m > n then
        (let u = slice s (n + 1) m in
         if trim then
           (case index u 0 of
              Inl e \<Rightarrow> Inl e
            | Inr c \<Rightarrow>
                if c = CHR ''~'' then Inr (slice_from u 1)
                else if slice_to u 2 = ''i='' \<or> slice_to u 2 = ''n='' then Inr (slice_from u 2)
                else Inr u)
         else Inr u)
      else Inr '''')"

text \<open>\<open>get_host(s)\<close>: only \<open>find\<close> and slices, so nothing in the body can raise.\<close>

definition get_host :: "string \<Rightarrow> string" where
  "get_host s =
     (let n = str_find s CHR ''@'' in
      if n < 3 then ''''
      else (let m = str_find s CHR '' '' in
            if m > 0 \<and> m > n then slice s (n + 1) m else slice_from s (n + 1)))"


text \<open>
  \<open>pattern_match(pattern, strings)\<close> compiles the pattern to the regular expression
  \<open>^...$\<close> with \<open>re.I\<close>: \<open>*\<close> becomes \<open>.*\<close>, \<open>?\<close> becomes \<open>.\<close>, any other
  character is escaped and stands for itself up to ASCII case. \<open>.\<close> matches any
  character but a newline, and \<open>$\<close> matches at the end of the string or before a final
  newline. \<open>regexp_search pattern s\<close> is \<open>regexp.search(s)\<close> for that expression. The
  module keeps the compiled expressions in \<open>_regexp_cache\<close>; the cache memoises a function
  of the pattern alone and is left out.
\<close>

fun regexp_search :: "string \<Rightarrow> string \<Rightarrow> bool" where
  "regexp_search [] s = (s = [] \<or> s = [CHR 0x0A])"
| "regexp_search (p # ps) [] = (p = CHR ''*'' \<and> regexp_search ps [])"
| "regexp_search (p # ps) (c # cs) =
     (if p = CHR ''*'' then
        regexp_search ps (c # cs) \<or> (c \<noteq> CHR 0x0A \<and> regexp_search (p # ps) cs)
      else if p = CHR ''?'' then c \<noteq> CHR 0x0A \<and> regexp_search ps cs
      else lower_char c = lower_char p \<and> regexp_search ps cs)"

text \<open>The second argument of \<open>pattern_match\<close> is one string or an iterable of strings.\<close>

datatype str_or_list = Str string | Strs "string list"

definition pattern_match :: "string \<Rightarrow> str_or_list \<Rightarrow> string list" where
  "pattern_match pattern strings =
     (let strings' = (case strings of Str s \<Rightarrow> [s] | Strs l \<Rightarrow> l)
      in filter (regexp_search pattern) strings')"

definition hostmask_pattern_match :: "string \<Rightarrow> str_or_list \<Rightarrow> string list" where
  "hostmask_pattern_match pattern strings =
     (if is_hostmask pattern then pattern_match pattern strings else [])"


section \<open>Case-insensitive keys and dictionaries\<close>

text \<open>
  A \<open>CaseInsensibleString\<close> keeps the text it was built from and compares and hashes by
  its attribute \<open>lowered\<close>. \<open>caseInsensibleKey\<close> wraps a string and maps itself over a
  tuple; the caches are keyed by strings (nicks, masks) and by \<open>(server, channel)\<close> pairs.
  A key is stored as its text; \<open>lowered\<close> and \<open>lowered_pair\<close> give what two keys are
  compared by.
\<close>

definition lowered :: "string \<Rightarrow> string" where
  "lowered s = str_lower s"

definition lowered_pair :: "string \<times> string \<Rightarrow> string \<times> string" where
  "lowered_pair k = (lowered (fst k), lowered (snd k))"

text \<open>
  A \<open>CaseInsensibleDict\<close> is a \<open>dict\<close> whose four item operations first pass the key
  through \<open>self.key\<close>. The dictionary is a list of (stored key, value) entries; the first
  argument of each operation is the comparison form of \<open>self.key\<close>. Storing under a key
  equal to a stored one replaces the value and keeps the stored key, as \<open>dict\<close> does.
  The order of the entries stands for the iteration order of the \<open>dict\<close>, which Python
  leaves unspecified.
\<close>

definition CaseInsensibleDict_contains :: "('k \<Rightarrow> 'n) \<Rightarrow> ('k \<times> 'v) list \<Rightarrow> 'k \<Rightarrow> bool" where
  "CaseInsensibleDict_contains key d k = list_ex (\<lambda>e. key (fst e) = key k) d"

definition CaseInsensibleDict_getitem ::
  "('k \<Rightarrow> 'n) \<Rightarrow> ('k \<times> 'v) list \<Rightarrow> 'k \<Rightarrow> py_error + 'v" where
  "CaseInsensibleDict_getitem key d k =
     (case List.find (\<lambda>e. key (fst e) = key k) d of
        None \<Rightarrow> Inl KeyError
      | Some e \<Rightarrow> Inr (snd e))"

definition CaseInsensibleDict_setitem ::
  "('k \<Rightarrow> 'n) \<Rightarrow> ('k \<times> 'v) list \<Rightarrow> 'k \<Rightarrow> 'v \<Rightarrow> ('k \<times> 'v) list" where
  "CaseInsensibleDict_setitem key d k v =
     (if CaseInsensibleDict_contains key d k
      then map (\<lambda>e. if key (fst e) = key k then (fst e, v) else e) d
      else d @ [(k, v)])"

definition without_key :: "('k \<Rightarrow> 'n) \<Rightarrow> ('k \<times> 'v) list \<Rightarrow> 'k \<Rightarrow> ('k \<times> 'v) list" where
  "without_key key d k = filter (\<lambda>e. key (fst e) \<noteq> key k) d"

definition CaseInsensibleDict_delitem ::
  "('k \<Rightarrow> 'n) \<Rightarrow> ('k \<times> 'v) list \<Rightarrow> 'k \<Rightarrow> py_error + ('k \<times> 'v) list" where
  "CaseInsensibleDict_delitem key d k =
     (if CaseInsensibleDict_contains key d k then Inr (without_key key d k) else Inl KeyError)"

text \<open>No two stored keys are equal: the invariant that makes the list a \<open>dict\<close>.\<close>

definition dict_ok :: "('k \<Rightarrow> 'n) \<Rightarrow> ('k \<times> 'v) list \<Rightarrow> bool" where
  "dict_ok key d = distinct (map (\<lambda>e. key (fst e)) d)"


section \<open>Mask records and mask lists\<close>

text \<open>
  The values the script stores in the fields of a \<open>MaskObject\<close>: \<open>None\<close>, a string, an
  integer, or a list of strings (the hostmasks a mask affects). \<open>truthy\<close> is Python's
  truth value of such a value.
\<close>

datatype pyval = PNone | PStr string | PInt int | PList "string list"

fun truthy :: "pyval \<Rightarrow> bool" where
  "truthy PNone = False"
| "truthy (PStr s) = (s \<noteq> [])"
| "truthy (PInt n) = (n \<noteq> 0)"
| "truthy (PList l) = (l \<noteq> [])"

text \<open>
  \<open>int(s)\<close> and \<open>int(s, 16)\<close> on a string: surrounding whitespace, an optional sign,
  for base 16 an optional \<open>0x\<close> followed by a digit, then digits of the base only.
\<close>

definition is_space :: "char \<Rightarrow> bool" where
  "is_space c = (c \<in> set [CHR '' '', CHR 0x09, CHR 0x0A, CHR 0x0B, CHR 0x0C, CHR 0x0D])"

definition strip :: "string \<Rightarrow> string" where
  "strip s = rev (dropWhile is_space (rev (dropWhile is_space s)))"

definition digit_val :: "char \<Rightarrow> nat option" where
  "digit_val c =
     (let n = (of_char c :: nat) in
      if 48 \<le> n \<and> n \<le> 57 then Some (n - 48)
      else if 97 \<le> n \<and> n \<le> 102 then Some (n - 87)
      else if 65 \<le> n \<and> n \<le> 70 then Some (n - 55)
      else None)"

fun parse_digits :: "nat \<Rightarrow> string \<Rightarrow> nat \<Rightarrow> nat option" where
  "parse_digits b [] acc = Some acc"
| "parse_digits b (c # cs) acc =
     (case digit_val c of
        None \<Rightarrow> None
      | Some d \<Rightarrow> if d < b then parse_digits b cs (acc * b + d) else None)"

definition py_int_str :: "nat \<Rightarrow> string \<Rightarrow> py_error + int" where
  "py_int_str b s =
     (let t = strip s;
          neg = (take 1 t = ''-'');
          u = (if take 1 t = ''-'' \<or> take 1 t = ''+'' then drop 1 t else t);
          u' = (if b = 16 \<and> (take 2 u = ''0x'' \<or> take 2 u = ''0X'') \<and> length u > 2
                then drop 2 u else u)
      in if u' = [] then Inl ValueError
         else (case parse_digits b u' 0 of
                 None \<Rightarrow> Inl ValueError
               | Some n \<Rightarrow> Inr (if neg then - int n else int n)))"

fun py_int :: "pyval \<Rightarrow> py_error + int" where
  "py_int (PInt n) = Inr n"
| "py_int (PStr s) = py_int_str 10 s"
| "py_int PNone = Inl TypeError"
| "py_int (PList l) = Inl TypeError"

text \<open>
  \<open>MaskObject\<close> has the slots \<open>mask\<close>, \<open>hostmask\<close>, \<open>operator\<close>, \<open>date\<close> and
  \<open>expires\<close>. The keyword dictionary \<open>d\<close> that \<open>MaskCache.add\<close> hands on maps some of
  the four optional slots to a value; \<open>mask\<close> is always passed by position.
\<close>

record MaskObject =
  mo_mask :: string
  mo_hostmask :: pyval
  mo_operator :: pyval
  mo_date :: pyval
  mo_expires :: pyval

datatype attr = Hostmask | Operator | Date | Expires

type_synonym kwargs = "attr \<Rightarrow> pyval option"

definition kwarg :: "kwargs \<Rightarrow> attr \<Rightarrow> pyval" where
  "kwarg d a = (case d a of None \<Rightarrow> PNone | Some v \<Rightarrow> v)"

text \<open>
  \<open>MaskObject.__init__\<close>: a true \<open>date\<close> is converted with \<open>int\<close>, otherwise the date
  is \<open>now()\<close>, here the argument \<open>now\<close>.
\<close>

definition MaskObject_init :: "int \<Rightarrow> string \<Rightarrow> kwargs \<Rightarrow> py_error + MaskObject" where
  "MaskObject_init now msk d =
     (case (if truthy (kwarg d Date) then py_int (kwarg d Date) else Inr now) of
        Inl e \<Rightarrow> Inl e
      | Inr date \<Rightarrow>
          Inr \<lparr>mo_mask = msk, mo_hostmask = kwarg d Hostmask, mo_operator = kwarg d Operator,
               mo_date = PInt date, mo_expires = kwarg d Expires\<rparr>)"

fun setattr :: "MaskObject \<Rightarrow> attr \<Rightarrow> pyval \<Rightarrow> MaskObject" where
  "setattr ban Hostmask v = ban\<lparr>mo_hostmask := v\<rparr>"
| "setattr ban Operator v = ban\<lparr>mo_operator := v\<rparr>"
| "setattr ban Date v = ban\<lparr>mo_date := v\<rparr>"
| "setattr ban Expires v = ban\<lparr>mo_expires := v\<rparr>"

text \<open>Reading a slot, \<open>getattr(ban, attr)\<close>.\<close>

fun getattr :: "MaskObject \<Rightarrow> attr \<Rightarrow> pyval" where
  "getattr ban Hostmask = mo_hostmask ban"
| "getattr ban Operator = mo_operator ban"
| "getattr ban Date = mo_date ban"
| "getattr ban Expires = mo_expires ban"

text \<open>The loop \<open>for attr, value in d.iteritems(): if value: setattr(ban, attr, value)\<close>.\<close>

definition update_attrs :: "MaskObject \<Rightarrow> kwargs \<Rightarrow> MaskObject" where
  "update_attrs ban d =
     fold (\<lambda>a b. case d a of
                    None \<Rightarrow> b
                  | Some v \<Rightarrow> if truthy v then setattr b a v else b)
          [Hostmask, Operator, Date, Expires] ban"

text \<open>
  A \<open>MaskList\<close> is a \<open>CaseInsensibleDict\<close> from mask to \<open>MaskObject\<close> with the attribute
  \<open>fetch_time\<close>, which \<open>__init__\<close> sets to 0.
\<close>

record MaskList =
  ml_items :: "(string \<times> MaskObject) list"
  fetch_time :: int

definition MaskList_init :: MaskList where
  "MaskList_init = \<lparr>ml_items = [], fetch_time = 0\<rparr>"

text \<open>
  \<open>MaskList.__setitem__(mask, d)\<close>: an existing record is updated in place, field by
  field; otherwise a new record is built and stored.
\<close>

definition MaskList_setitem :: "int \<Rightarrow> MaskList \<Rightarrow> string \<Rightarrow> kwargs \<Rightarrow> py_error + MaskList" where
  "MaskList_setitem now self msk d =
     (if CaseInsensibleDict_contains lowered (ml_items self) msk then
        (case CaseInsensibleDict_getitem lowered (ml_items self) msk of
           Inl e \<Rightarrow> Inl e
         | Inr ban \<Rightarrow>
             Inr (self\<lparr>ml_items :=
                    CaseInsensibleDict_setitem lowered (ml_items self) msk (update_attrs ban d)\<rparr>))
      else
        (case MaskObject_init now msk d of
           Inl e \<Rightarrow> Inl e
         | Inr ban \<Rightarrow>
             Inr (self\<lparr>ml_items := CaseInsensibleDict_setitem lowered (ml_items self) msk ban\<rparr>)))"

text \<open>\<open>MaskList.searchByHostmask\<close> and \<open>MaskList.searchByPattern\<close>.\<close>

definition MaskList_searchByHostmask :: "MaskList \<Rightarrow> string \<Rightarrow> string list" where
  "MaskList_searchByHostmask self hostmask =
     filter (\<lambda>msk. hostmask_pattern_match msk (Str hostmask) \<noteq> [])
            (map fst (ml_items self))"

definition MaskList_searchByPattern :: "MaskList \<Rightarrow> string \<Rightarrow> string list" where
  "MaskList_searchByPattern self pattern =
     pattern_match pattern (Strs (map fst (ml_items self)))"


section \<open>User lists and the user cache\<close>

text \<open>
  A \<open>UserList\<close> is a \<open>CaseInsensibleDict\<close> from nick to hostmask with a second
  dictionary \<open>_temp_users\<close> from the nicks waiting for deletion to the time they were
  marked.
\<close>

record UserList =
  ul_items :: "(string \<times> string) list"
  temp_users :: "(string \<times> int) list"

definition UserList_init :: UserList where
  "UserList_init = \<lparr>ul_items = [], temp_users = []\<rparr>"

text \<open>
  \<open>UserList.__setitem__\<close>. The \<open>del\<close> stands under the membership test, so its
  \<open>KeyError\<close> cannot be raised.
\<close>

definition UserList_setitem :: "UserList \<Rightarrow> string \<Rightarrow> string \<Rightarrow> UserList" where
  "UserList_setitem self nick hostname =
     (let items' = CaseInsensibleDict_setitem lowered (ul_items self) nick hostname in
      if CaseInsensibleDict_contains lowered (temp_users self) nick
      then self\<lparr>ul_items := items', temp_users := without_key lowered (temp_users self) nick\<rparr>
      else self\<lparr>ul_items := items'\<rparr>)"

text \<open>\<open>UserList.remove(nick)\<close> at time \<open>now\<close>.\<close>

definition UserList_remove :: "int \<Rightarrow> UserList \<Rightarrow> string \<Rightarrow> UserList" where
  "UserList_remove now self nick =
     self\<lparr>temp_users := CaseInsensibleDict_setitem lowered (temp_users self) nick now\<rparr>"

text \<open>
  \<open>UserList.purge()\<close> at time \<open>now\<close>: the loop runs over a copy of the entries of
  \<open>_temp_users\<close>; a \<open>KeyError\<close> of either \<open>del\<close> ends the \<open>try\<close> block of that round.
\<close>

definition purge_step :: "int \<Rightarrow> string \<times> int \<Rightarrow> UserList \<Rightarrow> UserList" where
  "purge_step now e self =
     (if now - snd e > 3600 then
        (case CaseInsensibleDict_delitem lowered (temp_users self) (fst e) of
           Inl err \<Rightarrow> self
         | Inr temp' \<Rightarrow>
             (case CaseInsensibleDict_delitem lowered (ul_items self) (fst e) of
                Inl err \<Rightarrow> self\<lparr>temp_users := temp'\<rparr>
              | Inr items' \<Rightarrow> self\<lparr>ul_items := items', temp_users := temp'\<rparr>))
      else self)"

definition UserList_purge :: "int \<Rightarrow> UserList \<Rightarrow> UserList" where
  "UserList_purge now self = fold (purge_step now) (temp_users self) self"


text \<open>
  The \<open>UserCache\<close> is a \<open>ServerChannelDict\<close> from \<open>(server, channel)\<close> to
  \<open>UserList\<close>. \<open>generate_cache\<close> reads WeeChat's \<open>irc_nick\<close> infolist: the argument
  \<open>infolist\<close> gives, for the infolist argument string \<open>server,channel\<close>, the
  \<open>(name, host)\<close> entries, or \<open>None\<close> when the infolist cannot be built and the
  constructor raises.
\<close>

type_synonym UserCache = "((string \<times> string) \<times> UserList) list"

type_synonym infolist = "string \<Rightarrow> (string \<times> string) list option"

definition generate_cache ::
  "infolist \<Rightarrow> UserCache \<Rightarrow> string \<Rightarrow> string \<Rightarrow> UserList \<times> UserCache" where
  "generate_cache infolist self server channel =
     (case infolist (server @ '','' @ channel) of
        None \<Rightarrow> (UserList_init, self)
      | Some nicks \<Rightarrow>
          (let users = fold (\<lambda>e u. UserList_setitem u (fst e) (fst e @ ''!'' @ snd e))
                            nicks UserList_init
           in (users, CaseInsensibleDict_setitem lowered_pair self (server, channel) users)))"

definition UserCache_get ::
  "infolist \<Rightarrow> UserCache \<Rightarrow> string \<Rightarrow> string \<Rightarrow> UserList \<times> UserCache" where
  "UserCache_get infolist self server channel =
     (case CaseInsensibleDict_getitem lowered_pair self (server, channel) of
        Inr users \<Rightarrow> (users, self)
      | Inl e \<Rightarrow> generate_cache infolist self server channel)"

text \<open>
  \<open>ServerChannelDict.getKeys(server, item)\<close> on the user cache: \<open>key[0] == server\<close>
  compares a stored \<open>CaseInsensibleString\<close>, and \<open>item in self[key]\<close> is the membership
  test of the \<open>UserList\<close>.
\<close>

definition UserCache_getKeys :: "UserCache \<Rightarrow> string \<Rightarrow> string \<Rightarrow> (string \<times> string) list" where
  "UserCache_getKeys self server item =
     (if item \<noteq> [] then
        map fst (filter (\<lambda>e. lowered (fst (fst e)) = lowered server
                              \<and> CaseInsensibleDict_contains lowered (ul_items (snd e)) item) self)
      else map fst (filter (\<lambda>e. lowered (fst (fst e)) = lowered server) self))"

text \<open>
  \<open>UserCache.hostFromNick(nick, server, channel)\<close>: the hostmask, or \<open>None\<close>, together
  with the cache, which \<open>get\<close> may have filled.
\<close>

definition hostFromNick ::
  "infolist \<Rightarrow> UserCache \<Rightarrow> string \<Rightarrow> string \<Rightarrow> string
     \<Rightarrow> py_error + (string option \<times> UserCache)" where
  "hostFromNick infolist self nick server channel =
     (let got = (if channel \<noteq> [] then UserCache_get infolist self server channel
                 else (UserList_init, self));
          users = fst got; self' = snd got
      in if channel \<noteq> [] \<and> CaseInsensibleDict_contains lowered (ul_items users) nick then
           (case CaseInsensibleDict_getitem lowered (ul_items users) nick of
              Inl e \<Rightarrow> Inl e
            | Inr h \<Rightarrow> Inr (Some h, self'))
         else
           (case UserCache_getKeys self' server nick of
              [] \<Rightarrow> Inr (None, self')
            | key # rest \<Rightarrow>
                (case CaseInsensibleDict_getitem lowered_pair self' key of
                   Inl e \<Rightarrow> Inl e
                 | Inr ul \<Rightarrow>
                     (case CaseInsensibleDict_getitem lowered (ul_items ul) nick of
                        Inl e \<Rightarrow> Inl e
                      | Inr h \<Rightarrow> Inr (Some h, self')))))"


section \<open>The mask cache: searching\<close>

text \<open>
  A \<open>MaskCache\<close> is a \<open>ServerChannelDict\<close> from \<open>(server, channel)\<close> to \<open>MaskList\<close>
  for one channel mode (\<open>b\<close> for bans, \<open>q\<close> for mutes).
\<close>

record MaskCache =
  mc_mode :: string
  mc_items :: "((string \<times> string) \<times> MaskList) list"

text \<open>
  \<open>MaskCache.searchByHostmask(hostmask, server, channel)\<close>; the hostmask is \<open>None\<close>
  when it comes from a nick the user cache does not know.
\<close>

definition MaskCache_searchByHostmask ::
  "MaskCache \<Rightarrow> string option \<Rightarrow> string \<Rightarrow> string \<Rightarrow> string list" where
  "MaskCache_searchByHostmask self hostmask server channel =
     (case hostmask of
        None \<Rightarrow> []
      | Some h \<Rightarrow>
          if h \<noteq> [] then
            (case CaseInsensibleDict_getitem lowered_pair (mc_items self) (server, channel) of
               Inr ml \<Rightarrow> MaskList_searchByHostmask ml h
             | Inl e \<Rightarrow> [])
          else [])"

definition MaskCache_searchByNick ::
  "infolist \<Rightarrow> UserCache \<Rightarrow> MaskCache \<Rightarrow> string \<Rightarrow> string \<Rightarrow> string
     \<Rightarrow> py_error + (string list \<times> UserCache)" where
  "MaskCache_searchByNick infolist userCache self nick server channel =
     (case hostFromNick infolist userCache nick server channel of
        Inl e \<Rightarrow> Inl e
      | Inr r \<Rightarrow> Inr (MaskCache_searchByHostmask self (fst r) server channel, snd r))"


section \<open>Building ban masks\<close>

text \<open>
  \<open>is_ip(s)\<close>: three dots, and \<open>socket.inet_aton(s)\<close> does not raise. \<open>inet_aton\<close>
  belongs to the C library; the argument \<open>inet_aton\<close> says which strings it accepts.
\<close>

definition is_ip :: "(string \<Rightarrow> bool) \<Rightarrow> string \<Rightarrow> bool" where
  "is_ip inet_aton s = (if str_count s CHR ''.'' \<noteq> 3 then False else inet_aton s)"

text \<open>
  \<open>_valid_label.search(label)\<close> for the expression \<open>^[a-z\d\-]+$\<close> with \<open>re.I\<close>;
  \<open>$\<close> also matches before a final newline.
\<close>

definition label_char :: "char \<Rightarrow> bool" where
  "label_char c =
     (let n = (of_char c :: nat) in
      (97 \<le> n \<and> n \<le> 122) \<or> (65 \<le> n \<and> n \<le> 90) \<or> (48 \<le> n \<and> n \<le> 57) \<or> c = CHR ''-'')"

definition valid_label :: "string \<Rightarrow> bool" where
  "valid_label l =
     (let b = (if l \<noteq> [] \<and> last l = CHR 0x0A then butlast l else l)
      in b \<noteq> [] \<and> list_all label_char b)"

definition is_hostname :: "string \<Rightarrow> bool" where
  "is_hostname s =
     (if s = [] \<or> length s > 255 then False
      else (let s' = (if last s = CHR ''.'' then butlast s else s) in
            list_all (\<lambda>label. \<not> (label = [] \<or> length label > 63
                                 \<or> hd label = CHR ''-'' \<or> last label = CHR ''-''
                                 \<or> \<not> valid_label label))
                     (split_on CHR ''.'' s')))"

text \<open>
  \<open>hex_to_ip(s)\<close>: the four two-character pieces of an eight-character string, each
  read with \<open>int(n, 16)\<close>; any exception gives the empty string.
\<close>

fun all_values :: "(py_error + int) list \<Rightarrow> int list option" where
  "all_values [] = Some []"
| "all_values (Inl e # rs) = None"
| "all_values (Inr v # rs) = (case all_values rs of None \<Rightarrow> None | Some vs \<Rightarrow> Some (v # vs))"

definition hex_to_ip :: "string \<Rightarrow> string" where
  "hex_to_ip s =
     (if length s \<noteq> 8 then []
      else (case all_values (map (\<lambda>n. py_int_str 16 (slice s n (n + 2))) [0, 2, 4, 6]) of
              None \<Rightarrow> []
            | Some ip \<Rightarrow> join ''.'' (map str_of_int ip)))"

text \<open>
  \<open>Ban.make_banmask(hostmask)\<close>, with \<open>self.banmask\<close> as the argument \<open>banmask\<close>.
\<close>

definition make_banmask ::
  "(string \<Rightarrow> bool) \<Rightarrow> string list \<Rightarrow> string \<Rightarrow> py_error + string" where
  "make_banmask inet_aton banmask hostmask =
     (if banmask = [] then Inl AssertionError
      else if ''exact'' \<in> set banmask then Inr hostmask
      else if ''webchat'' \<in> set banmask then
        (case get_user hostmask True of
           Inl e \<Rightarrow> Inl e
         | Inr user \<Rightarrow>
             (let decoded_ip = hex_to_ip user; host = get_host hostmask in
              if \<not> is_hostname host \<and> is_ip inet_aton decoded_ip
                 \<and> \<not> str_contains decoded_ip host
              then (case get_user hostmask False of
                      Inl e \<Rightarrow> Inl e
                    | Inr u \<Rightarrow> Inr (''*!'' @ u @ ''@*''))
              else Inr (''*!*@'' @ host)))
      else
        (case (if ''nick'' \<in> set banmask then get_nick hostmask else Inr ''*'') of
           Inl e \<Rightarrow> Inl e
         | Inr nick \<Rightarrow>
             (case (if ''user'' \<in> set banmask then get_user hostmask False else Inr ''*'') of
                Inl e \<Rightarrow> Inl e
              | Inr user \<Rightarrow>
                  (let host = (if ''host'' \<in> set banmask then get_host hostmask else ''*'')
                   in Inr (nick @ ''!'' @ user @ ''@'' @ host)))))"


section \<open>WeeChat and the script's global state\<close>

text \<open>
  What the script asks of WeeChat is kept in one record together with the script's own
  module-level variables. A hook is known by the handle WeeChat returned for it; the
  active hooks are listed with what they were registered for. \<open>weechat.command\<close>
  appends to \<open>w_sent\<close>, \<open>error\<close> and \<open>say\<close> append to \<open>w_printed\<close>. The settings
  (\<open>config_get_plugin\<close>), \<open>info_get('irc_is_channel', _)\<close> and
  \<open>buffer_search('irc', _)\<close> are functions of the host. \<open>debug\<close> output goes to a buffer
  of its own and is left out, as is the traceback that \<open>error\<close> adds when the \<open>debug\<close>
  setting is on.
\<close>

datatype hook_spec =
    SignalHook string string string
  | TimerHook int int int string string
  | ModifierHook string string string

datatype printed = Error string | Say string

text \<open>
  A queued \<open>Message\<close>: \<open>Normal\<close> and \<open>WaitForOp\<close> carry command, buffer and wait;
  \<open>WaitForOp\<close> also server, channel and nick; \<open>AddChannel\<close> carries server and channel
  only. The queue adds integer waits to 0, so \<open>wait\<close> is an integer and the branch of
  \<open>Message.__call__\<close> for a float wait is never taken.
\<close>

datatype message =
    Normal string string int
  | WaitForOp string string int string string string
  | AddChannel string string

record world =
  q_commands :: "message list"
  q_wait :: int
  hook_signal :: "nat option"
  hook_timeout :: "nat option"
  banlist :: MaskCache
  mutelist :: MaskCache
  hook_queue :: "(string \<times> string \<times> string) list"
  hook_fetch :: "nat list"
  isupport :: "string \<Rightarrow> string list option option"
  waiting_for_completion :: bool
  w_hooks :: "(nat \<times> hook_spec) list"
  w_next :: nat
  w_sent :: "(string \<times> string) list"
  w_printed :: "printed list"
  w_config :: "string \<Rightarrow> string"
  w_is_channel :: "string \<Rightarrow> bool"
  w_buffers :: "string \<Rightarrow> string"

text \<open>\<open>weechat.hook_signal\<close>, \<open>hook_timer\<close> and \<open>hook_modifier\<close> return a fresh handle.\<close>

definition hook :: "hook_spec \<Rightarrow> world \<Rightarrow> nat \<times> world" where
  "hook spec w = (w_next w, w\<lparr>w_hooks := w_hooks w @ [(w_next w, spec)], w_next := Suc (w_next w)\<rparr>)"

definition unhook :: "nat \<Rightarrow> world \<Rightarrow> world" where
  "unhook h w = w\<lparr>w_hooks := filter (\<lambda>e. fst e \<noteq> h) (w_hooks w)\<rparr>"

text \<open>
  \<open>weechat.unhook(v)\<close> for a module variable \<open>v\<close> that holds a handle or \<open>None\<close>;
  \<open>None\<close> is not a handle, and the call fails.
\<close>

definition unhook_var :: "nat option \<Rightarrow> world \<Rightarrow> py_error + world" where
  "unhook_var v w = (case v of None \<Rightarrow> Inl TypeError | Some h \<Rightarrow> Inr (unhook h w))"

definition error :: "string \<Rightarrow> world \<Rightarrow> world" where
  "error s w = w\<lparr>w_printed := w_printed w @ [Error s]\<rparr>"

definition say :: "string \<Rightarrow> world \<Rightarrow> world" where
  "say s w = w\<lparr>w_printed := w_printed w @ [Say s]\<rparr>"

definition command :: "string \<Rightarrow> string \<Rightarrow> world \<Rightarrow> world" where
  "command buffer cmd w = w\<lparr>w_sent := w_sent w @ [(buffer, cmd)]\<rparr>"

definition get_config_list :: "world \<Rightarrow> string \<Rightarrow> string list" where
  "get_config_list w config =
     (let v = w_config w config in if v \<noteq> [] then split_on CHR '','' v else [])"


section \<open>The command queue\<close>

text \<open>\<open>Message.__call__\<close>: with the \<open>debug\<close> setting at \<open>2\<close> nothing is sent.\<close>

definition Message_call :: "string \<Rightarrow> string \<Rightarrow> int \<Rightarrow> world \<Rightarrow> world" where
  "Message_call cmd buffer wait w =
     (let c = (if wait \<noteq> 0 then ''/wait '' @ str_of_int wait @ '' '' @ cmd else cmd)
      in if w_config w ''debug'' = ''2'' then w else command buffer c w)"

text \<open>
  \<open>WaitForOp.__call__\<close>: drop the hooks of an earlier wait, hook the signal and the
  one-minute timer, send the command, and return \<open>False\<close> unless \<open>debug\<close> is \<open>2\<close>.
\<close>

definition WaitForOp_call ::
  "string \<Rightarrow> string \<Rightarrow> int \<Rightarrow> string \<Rightarrow> string \<Rightarrow> string \<Rightarrow> world \<Rightarrow> bool \<times> world" where
  "WaitForOp_call cmd buffer wait server channel nick w =
     (let w1 = (case hook_timeout w of None \<Rightarrow> w | Some h \<Rightarrow> unhook h w);
          w2 = (case hook_signal w1 of None \<Rightarrow> w1 | Some h \<Rightarrow> unhook h w1);
          hs = hook (SignalHook (server @ '',irc_in2_MODE'') ''queue_continue_cb''
                       (''MODE '' @ channel @ '' +o '' @ nick)) w2;
          w3 = (snd hs)\<lparr>hook_signal := Some (fst hs)\<rparr>;
          ht = hook (TimerHook (60 * 1000) 0 1 ''queue_timeout_cb'' (server @ ''.'' @ channel)) w3;
          w4 = (snd ht)\<lparr>hook_timeout := Some (fst ht)\<rparr>;
          w5 = Message_call cmd buffer wait w4
      in if w_config w5 ''debug'' = ''2'' then (True, w5) else (False, w5))"

text \<open>
  \<open>AddChannel.__call__\<close>. The watch list is read into a \<open>CaseInsensibleSet\<close> and
  written back joined by commas; Python does not fix the order in which a set is
  iterated, the model keeps the order of the setting and puts the new channel last.
\<close>

fun ci_set :: "string list \<Rightarrow> string list" where
  "ci_set [] = []"
| "ci_set (x # xs) = x # filter (\<lambda>y. lowered y \<noteq> lowered x) (ci_set xs)"

definition AddChannel_call :: "string \<Rightarrow> string \<Rightarrow> world \<Rightarrow> bool \<times> world" where
  "AddChannel_call server channel w =
     (if channel = [] \<or> \<not> w_is_channel w channel then (True, w)
      else (let config = ''watchlist.'' @ server;
                channels = ci_set (get_config_list w config)
            in if lowered channel \<notin> set (map lowered channels)
               then (True, w\<lparr>w_config := (w_config w)(config := join '','' (channels @ [channel]))\<rparr>)
               else (True, w)))"

fun call :: "message \<Rightarrow> world \<Rightarrow> bool \<times> world" where
  "call (Normal cmd buffer wait) w = (True, Message_call cmd buffer wait w)"
| "call (WaitForOp cmd buffer wait server channel nick) w =
     WaitForOp_call cmd buffer wait server channel nick w"
| "call (AddChannel server channel) w = AddChannel_call server channel w"

text \<open>
  \<open>CommandQueue.queue(cmd, type, wait, **kwargs)\<close>. The type and its keyword arguments
  are one value; \<open>Message.__init__\<close> asserts a non-empty command, \<open>AddChannel.__init__\<close>
  does not call it.
\<close>

datatype queue_type =
    TNormal string
  | TWaitForOp string string string string
  | TAddChannel string string

fun make_message :: "queue_type \<Rightarrow> string \<Rightarrow> int \<Rightarrow> py_error + message" where
  "make_message (TNormal buffer) cmd wait =
     (if cmd = [] then Inl AssertionError else Inr (Normal cmd buffer wait))"
| "make_message (TWaitForOp buffer server channel nick) cmd wait =
     (if cmd = [] then Inl AssertionError
      else Inr (WaitForOp cmd buffer wait server channel nick))"
| "make_message (TAddChannel server channel) cmd wait = Inr (AddChannel server channel)"

definition queue :: "string \<Rightarrow> queue_type \<Rightarrow> int \<Rightarrow> world \<Rightarrow> py_error + world" where
  "queue cmd type wait w =
     (case make_message type cmd (q_wait w) of
        Inl e \<Rightarrow> Inl e
      | Inr pack \<Rightarrow> Inr (w\<lparr>q_wait := q_wait w + wait, q_commands := q_commands w @ [pack]\<rparr>))"

definition clear :: "world \<Rightarrow> world" where
  "clear w = w\<lparr>q_commands := [], q_wait := 0\<rparr>"


text \<open>
  The body of \<open>CommandQueue.run\<close>: pop and call the front message while there is one,
  stop at once when a call returns \<open>False\<close>, and reset \<open>wait\<close> when the queue has run
  empty. No message touches the queue when called, so the loop ends.
\<close>

function run_loop :: "world \<Rightarrow> world" where
  "run_loop w =
     (case q_commands w of
        [] \<Rightarrow> w\<lparr>q_wait := 0\<rparr>
      | pack # rest \<Rightarrow>
          (let r = call pack (w\<lparr>q_commands := rest\<rparr>)
           in if fst r then run_loop (snd r) else snd r))"
  by pat_completeness auto
termination
proof (relation "measure (\<lambda>w. length (q_commands w))")
  show "wf (measure (\<lambda>w. length (q_commands w)))"
    by simp
next
  fix w :: world and pack rest r
  assume front: "q_commands w = pack # rest"
    and r: "r = call pack (w\<lparr>q_commands := rest\<rparr>)"
  have keeps: "\<And>v. q_commands (snd (call pack v)) = q_commands v"
  proof -
    fix v
    show "q_commands (snd (call pack v)) = q_commands v"
      by (cases pack)
        (simp_all add: Message_call_def command_def WaitForOp_call_def AddChannel_call_def
          hook_def unhook_def Let_def split: option.splits)
  qed
  show "(snd r, w) \<in> measure (\<lambda>w. length (q_commands w))"
    using front r keeps [of "w\<lparr>q_commands := rest\<rparr>"] by simp
qed

text \<open>
  \<open>CommandQueue.run\<close> under its decorator \<open>safe_check\<close>: with more than 20 messages
  queued the error is printed and the queue cleared instead.
\<close>

definition run :: "world \<Rightarrow> world" where
  "run w =
     (if length (q_commands w) > 20
      then clear (error ''Limit of 20 commands in queue reached, aborting.'' w)
      else run_loop w)"

text \<open>
  \<open>queue_continue_cb(data, signal, signal_data)\<close>: the text after the first space of the
  message, stripped, is compared with the hook's data.
\<close>

definition queue_continue_cb :: "string \<Rightarrow> string \<Rightarrow> string \<Rightarrow> world \<Rightarrow> py_error + world" where
  "queue_continue_cb data signal signal_data w =
     (if CHR '' '' \<notin> set signal_data then Inl IndexError
      else if strip (slice_from signal_data (str_find signal_data CHR '' '' + 1)) = data then
        (case unhook_var (hook_signal w) w of
           Inl e \<Rightarrow> Inl e
         | Inr w1 \<Rightarrow>
             (case unhook_var (hook_timeout w1) w1 of
                Inl e \<Rightarrow> Inl e
              | Inr w2 \<Rightarrow> Inr (run (w2\<lparr>hook_signal := None, hook_timeout := None\<rparr>))))
      else Inr w)"

text \<open>\<open>queue_timeout_cb(channel, count)\<close>.\<close>

definition queue_timeout_cb :: "string \<Rightarrow> world \<Rightarrow> py_error + world" where
  "queue_timeout_cb channel w =
     (let w1 = error (''Couldn't get op in '' @ [CHR 0x27] @ channel @ [CHR 0x27]
                        @ '', purging command queue...'') w
      in case unhook_var (hook_signal w1) w1 of
           Inl e \<Rightarrow> Inl e
         | Inr w2 \<Rightarrow> Inr (clear (w2\<lparr>hook_signal := None, hook_timeout := None\<rparr>)))"

text \<open>
  WeeChat's side of the timer hook. A timer that comes due runs its callback and, when it
  was registered for one call, is removed; a timer that was removed never comes due.
  The interval stays in the hook's registration.
\<close>

definition weechat_timer_due :: "nat \<Rightarrow> world \<Rightarrow> py_error + world" where
  "weechat_timer_due h w =
     (case List.find (\<lambda>e. fst e = h) (w_hooks w) of
        None \<Rightarrow> Inr w
      | Some e \<Rightarrow>
          (case snd e of
             TimerHook i a m cb data \<Rightarrow>
               (if cb = ''queue_timeout_cb'' then
                  (case queue_timeout_cb data w of
                     Inl err \<Rightarrow> Inl err
                   | Inr w1 \<Rightarrow> Inr (if m = 1 then unhook h w1 else w1))
                else Inr w)
           | SignalHook sg cb data \<Rightarrow> Inr w
           | ModifierHook md cb data \<Rightarrow> Inr w))"


text \<open>WeeChat hands out fresh handles: every active hook is older than the next handle.\<close>

definition handles_fresh :: "world \<Rightarrow> bool" where
  "handles_fresh w = list_all (\<lambda>e. fst e < w_next w) (w_hooks w)"


section \<open>The mask cache: fetching\<close>

text \<open>\<open>s.split()\<close>: the pieces of \<open>s\<close> between runs of whitespace.\<close>

fun split_acc :: "string \<Rightarrow> string \<Rightarrow> string list" where
  "split_acc cur [] = (if cur = [] then [] else [cur])"
| "split_acc cur (c # cs) =
     (if is_space c then (if cur = [] then split_acc [] cs else cur # split_acc [] cs)
      else split_acc (cur @ [c]) cs)"

definition split_ws :: "string \<Rightarrow> string list" where
  "split_ws s = split_acc [] s"

text \<open>
  \<open>banlist\<close> and \<open>mutelist\<close> are the two \<open>MaskCache\<close> instances; \<open>maskModes\<close> maps
  the mode letters \<open>b\<close> and \<open>q\<close> to them.
\<close>

datatype cache_id = Ban | Mute

fun the_cache :: "cache_id \<Rightarrow> world \<Rightarrow> MaskCache" where
  "the_cache Ban w = banlist w"
| "the_cache Mute w = mutelist w"

fun put_cache :: "cache_id \<Rightarrow> MaskCache \<Rightarrow> world \<Rightarrow> world" where
  "put_cache Ban c w = w\<lparr>banlist := c\<rparr>"
| "put_cache Mute c w = w\<lparr>mutelist := c\<rparr>"

definition maskModes :: "string \<Rightarrow> py_error + cache_id" where
  "maskModes mode =
     (if mode = ''b'' then Inr Ban else if mode = ''q'' then Inr Mute else Inl KeyError)"

text \<open>
  \<open>supported_modes(server, mode)\<close> for a given mode. \<open>isupport w server\<close> is \<open>None\<close>
  when the server has sent no \<open>005\<close> message yet, and else holds the \<open>CHANMODES\<close> tuple
  if there was one.
\<close>

definition supported_modes :: "world \<Rightarrow> string \<Rightarrow> string \<Rightarrow> bool" where
  "supported_modes w server mode =
     (let modes = (case isupport w server of
                     Some d \<Rightarrow> (case d of
                                  None \<Rightarrow> []
                                | Some t \<Rightarrow> if t \<noteq> [] then hd t else [])
                   | None \<Rightarrow> w_config w (''chanmodes.'' @ server));
          modes' = (if modes = [] then ''b'' else modes)
      in str_contains mode modes')"

text \<open>
  \<open>MaskCache.add(server, channel, mask, **kwargs)\<close>, with \<open>initList\<close> for a channel
  that has no list yet. An exception ends the call; the model does not follow the state
  behind it.
\<close>

definition initList :: "MaskCache \<Rightarrow> string \<Rightarrow> string \<Rightarrow> MaskCache" where
  "initList self server channel =
     self\<lparr>mc_items := CaseInsensibleDict_setitem lowered_pair (mc_items self) (server, channel)
                         MaskList_init\<rparr>"

definition MaskCache_add ::
  "int \<Rightarrow> MaskCache \<Rightarrow> string \<Rightarrow> string \<Rightarrow> string \<Rightarrow> kwargs \<Rightarrow> py_error + MaskCache" where
  "MaskCache_add now self server channel msk d =
     (let self1 = (if \<not> CaseInsensibleDict_contains lowered_pair (mc_items self) (server, channel)
                   then initList self server channel else self)
      in case CaseInsensibleDict_getitem lowered_pair (mc_items self1) (server, channel) of
           Inl e \<Rightarrow> Inl e
         | Inr ml \<Rightarrow>
             (case MaskList_setitem now ml msk d of
                Inl e \<Rightarrow> Inl e
              | Inr ml' \<Rightarrow>
                  Inr (self1\<lparr>mc_items :=
                         CaseInsensibleDict_setitem lowered_pair (mc_items self1) (server, channel) ml'\<rparr>)))"

text \<open>
  \<open>MaskCache.fetch(server, channel)\<close> on the cache \<open>self\<close> at time \<open>now\<close>.
  \<open>hook_queue\<close> and \<open>hook_fetch\<close> are class attributes shared by both caches; the
  entries of \<open>hook_queue\<close> are plain tuples, compared as they are.
\<close>

definition fetch :: "int \<Rightarrow> cache_id \<Rightarrow> string \<Rightarrow> string \<Rightarrow> world \<Rightarrow> world" where
  "fetch now self server channel w =
     (let mode = mc_mode (the_cache self w) in
      if \<not> supported_modes w server mode then w
      else if (case CaseInsensibleDict_getitem lowered_pair (mc_items (the_cache self w))
                      (server, channel) of
                 Inr ml \<Rightarrow> now - fetch_time ml < 60
               | Inl e \<Rightarrow> False) then w
      else (let buffer = w_buffers w (''server.'' @ server) in
            if buffer = [] \<or> \<not> w_is_channel w channel then w
            else if (server, channel, mode) \<in> set (hook_queue w) then w
            else (let w1 = w\<lparr>hook_queue := hook_queue w @ [(server, channel, mode)]\<rparr>;
                      w2 = (if hook_fetch w1 = [] then
                              (let a = hook (ModifierHook ''irc_in_367'' ''masklist_add_cb'' []) w1;
                                   b = hook (ModifierHook ''irc_in_368'' ''masklist_end_cb'' []) (snd a)
                               in (snd b)\<lparr>hook_fetch := [fst a, fst b]\<rparr>)
                            else w1);
                      cmd = ''/wait '' @ str_of_int (int (length (hook_queue w2)))
                            @ '' /mode '' @ channel @ '' '' @ mode
                  in command buffer cmd
                       (say (''Fetching '' @ channel @ '' masks (+'' @ mode @ '' channelmode).'') w2))))"

text \<open>
  \<open>masklist_add_cb(data, modifier, modifier_data, string)\<close> at time \<open>now\<close>: the last
  four words of the message are channel, mask, operator and date; the server is the
  modifier data.
\<close>

definition masklist_add_cb :: "int \<Rightarrow> string \<Rightarrow> string \<Rightarrow> world \<Rightarrow> py_error + world" where
  "masklist_add_cb now modifier_data string w =
     (let ws = split_ws string in
      if length ws < 4 then Inl ValueError
      else (let l = drop (length ws - 4) ws;
                channel = l ! 0; banmask = l ! 1; op = l ! 2; date = l ! 3;
                server = modifier_data
            in case hook_queue w of
                 [] \<Rightarrow> Inl IndexError
               | head # rest \<Rightarrow>
                   (let serv = fst head; chan = fst (snd head); mode = snd (snd head) in
                    if (serv, chan) = (server, channel) then
                      (case maskModes mode of
                         Inl e \<Rightarrow> Inl e
                       | Inr c \<Rightarrow>
                           (case MaskCache_add now (the_cache c w) server channel banmask
                                   [Operator \<mapsto> PStr op, Date \<mapsto> PStr date] of
                              Inl e \<Rightarrow> Inl e
                            | Inr cache' \<Rightarrow> Inr (put_cache c cache' w)))
                    else Inr (error ''Error: got mask from unexpected server/channel'' w))))"

text \<open>
  \<open>masklist_end_cb(data, modifier, modifier_data, string)\<close>. With a completion waiting
  for the list, the callback rewrites the input line of a buffer and feeds the completion;
  of that only the reset of \<open>waiting_for_completion\<close> is kept.
\<close>

definition masklist_end_cb :: "world \<Rightarrow> py_error + world" where
  "masklist_end_cb w =
     (case hook_queue w of
        [] \<Rightarrow> Inl IndexError
      | head # rest \<Rightarrow>
          (let server = fst head; channel = fst (snd head); mode = snd (snd head);
               w1 = w\<lparr>hook_queue := rest\<rparr>
           in case maskModes mode of
                Inl e \<Rightarrow> Inl e
              | Inr c \<Rightarrow>
                  (case (if \<not> CaseInsensibleDict_contains lowered_pair
                                (mc_items (the_cache c w1)) (server, channel)
                         then Inr (put_cache c (initList (the_cache c w1) server channel) w1)
                         else (case CaseInsensibleDict_getitem lowered_pair
                                      (mc_items (the_cache c w1)) (server, channel) of
                                 Inl e \<Rightarrow> Inl e
                               | Inr ml \<Rightarrow>
                                   Inr (say (''Got '' @ channel @ '' +'' @ mode @ '' masks (''
                                             @ str_of_int (int (length (ml_items ml)))
                                             @ '' masks).'') w1))) of
                     Inl e \<Rightarrow> Inl e
                   | Inr w2 \<Rightarrow>
                       (let w3 = (if hook_queue w2 = []
                                  then (fold unhook (hook_fetch w2) w2)\<lparr>hook_fetch := []\<rparr>
                                  else w2)
                        in Inr (w3\<lparr>waiting_for_completion := False\<rparr>)))))"


text \<open>Every list of both caches has the \<open>fetch_time\<close> that \<open>__init__\<close> gave it.\<close>

definition fetch_times_zero :: "world \<Rightarrow> bool" where
  "fetch_times_zero w =
     (list_all (\<lambda>e. fetch_time (snd e) = 0) (mc_items (banlist w))
      \<and> list_all (\<lambda>e. fetch_time (snd e) = 0) (mc_items (mutelist w)))"


text \<open>
  For stating what \<open>purge\<close> deletes: at time \<open>now\<close>, the key \<open>k\<close> has a marker in
  \<open>ts\<close> that is more than 3600 seconds old.
\<close>

definition expired_key :: "int \<Rightarrow> (string \<times> int) list \<Rightarrow> string \<Rightarrow> bool" where
  "expired_key now ts k = list_ex (\<lambda>t. now - snd t > 3600 \<and> lowered (fst t) = lowered k) ts"


section \<open>Example data\<close>

text \<open>A mask list with one hostmask-shaped mask and one that is a bare nick pattern.\<close>

definition example_masks :: MaskList where
  "example_masks =
     \<lparr>ml_items =
        [(''*!*@host.example'', \<lparr>mo_mask = ''*!*@host.example'', mo_hostmask = PNone,
             mo_operator = PStr ''op'', mo_date = PInt 100, mo_expires = PNone\<rparr>),
         (''nick*'', \<lparr>mo_mask = ''nick*'', mo_hostmask = PNone,
             mo_operator = PStr ''op'', mo_date = PInt 100, mo_expires = PNone\<rparr>)],
      fetch_time = 0\<rparr>"


text \<open>A user list with two users, one of them marked for deletion at time 1000.\<close>

definition example_users :: UserList where
  "example_users =
     \<lparr>ul_items = [(''Alice'', ''Alice!a@old.example''), (''Bob'', ''Bob!b@host.example'')],
      temp_users = [(''bob'', 1000)]\<rparr>"


text \<open>
  An \<open>inet_aton\<close> for the examples: it accepts exactly the dotted quads of four decimal
  numbers up to 255 written without leading zeros.
\<close>

definition example_inet_aton :: "string \<Rightarrow> bool" where
  "example_inet_aton s =
     (let ps = split_on CHR ''.'' s in
      length ps = 4
      \<and> list_all (\<lambda>p. p \<noteq> [] \<and> (length p = 1 \<or> hd p \<noteq> CHR ''0'')
                      \<and> (case parse_digits 10 p 0 of None \<Rightarrow> False | Some n \<Rightarrow> n \<le> 255)) ps)"


text \<open>
  A world with nothing queued, no hook, empty caches, and a server \<open>freenode\<close> with
  the buffer \<open>0x1\<close>; names starting with \<open>#\<close> are channels. \<open>example_queued\<close> has the
  three messages a privileged \<open>/okick\<close> queues without op; \<open>example_debug\<close> is the same
  with the \<open>debug\<close> setting at \<open>2\<close>.
\<close>

definition example_world :: world where
  "example_world =
     \<lparr>q_commands = [], q_wait = 0, hook_signal = None, hook_timeout = None,
      banlist = \<lparr>mc_mode = ''b'', mc_items = []\<rparr>,
      mutelist = \<lparr>mc_mode = ''q'', mc_items = []\<rparr>,
      hook_queue = [], hook_fetch = [], isupport = (\<lambda>server. None),
      waiting_for_completion = False,
      w_hooks = [], w_next = 1, w_sent = [], w_printed = [],
      w_config = (\<lambda>name. []),
      w_is_channel = (\<lambda>name. take 1 name = ''#''),
      w_buffers = (\<lambda>name. if name = ''server.freenode'' then ''0x1'' else [])\<rparr>"

definition example_queued :: world where
  "example_queued =
     example_world\<lparr>q_commands :=
        [WaitForOp ''/msg chanserv op #chan me'' ''0x2'' 0 ''freenode'' ''#chan'' ''me'',
         AddChannel ''freenode'' ''#chan'',
         Normal ''/kick troll bye'' ''0x2'' 1],
        q_wait := 2\<rparr>"

definition example_debug :: world where
  "example_debug =
     example_queued\<lparr>w_config := (\<lambda>name. if name = ''debug'' then ''2'' else [])\<rparr>"


text \<open>
  Queueing the same kick \<open>n\<close> times in a row on the buffer \<open>0x2\<close>, each with the
  default wait of 1, as a command handler does through \<open>CommandChanop.queue\<close>.
\<close>

fun queue_many :: "nat \<Rightarrow> world \<Rightarrow> py_error + world" where
  "queue_many 0 w = Inr w"
| "queue_many (Suc n) w =
     (case queue ''/kick troll bye'' (TNormal ''0x2'') 1 w of
        Inl e \<Rightarrow> Inl e
      | Inr w' \<Rightarrow> queue_many n w')"


text \<open>
  The example world after \<open>banlist.fetch('freenode', '#chan')\<close> at time 1000: the key
  \<open>(freenode, #chan, b)\<close> is the head of the fetch queue.
\<close>

definition example_fetching :: world where
  "example_fetching = fetch 1000 Ban ''freenode'' ''#chan'' example_world"


section \<open>Basic facts about the primitives\<close>

lemma str_find_absent: "c \<notin> set s \<Longrightarrow> str_find s c = - 1"
  by (simp add: str_find_def)

lemma str_find_nonneg: "c \<in> set s \<Longrightarrow> 0 \<le> str_find s c"
  by (simp add: str_find_def)

lemma str_find_less: "c \<in> set s \<Longrightarrow> str_find s c < int (length s)"
proof -
  assume "c \<in> set s"
  then have "takeWhile (\<lambda>x. x \<noteq> c) s \<noteq> s"
    by (metis (mono_tags, lifting) takeWhile_eq_all_conv)
  then have "length (takeWhile (\<lambda>x. x \<noteq> c) s) < length s"
    by (metis length_takeWhile_le le_neq_implies_less takeWhile_eq_take take_all_iff)
  with \<open>c \<in> set s\<close> show ?thesis
    by (simp add: str_find_def)
qed

lemma str_find_ge_minus1: "- 1 \<le> str_find s c"
  by (simp add: str_find_def)

lemma index_0_nonempty: "s \<noteq> [] \<Longrightarrow> index s 0 = Inr (hd s)"
  by (cases s) (simp_all add: index_def)


section \<open>Hostmask part extractors on malformed input\<close>

text \<open>
  Claim C9, as stated, asks every extractor to return the empty string whenever the \<open>!\<close>
  or the \<open>@\<close> is missing. \<open>get_nick\<close> looks at the \<open>!\<close> only: on \<open>nick!user\<close>, which
  has no \<open>@\<close>, it returns \<open>nick\<close>. Likewise \<open>get_host\<close> looks at the \<open>@\<close> only.
\<close>

theorem C9_get_nick_without_at_counterexample:
  "CHR ''@'' \<notin> set ''nick!user'' \<and> get_nick ''nick!user'' = Inr ''nick''
   \<and> CHR ''!'' \<notin> set ''nick@host'' \<and> get_host ''nick@host'' = ''host''"
  by code_simp

text \<open>
  Claim C9, amended: each extractor returns the empty string when the separator it looks
  for is missing (\<open>get_nick\<close>: the \<open>!\<close>; \<open>get_host\<close>: the \<open>@\<close>; \<open>get_user\<close> without
  trimming: either of them), and \<open>get_nick\<close>, \<open>get_user\<close> without trimming and
  \<open>get_host\<close> return a string on every input.
\<close>

theorem C9_extractors_malformed:
  "(CHR ''!'' \<notin> set s \<longrightarrow> get_nick s = Inr '''')
   \<and> (CHR ''!'' \<notin> set s \<or> CHR ''@'' \<notin> set s \<longrightarrow> get_user s False = Inr '''')
   \<and> (CHR ''@'' \<notin> set s \<longrightarrow> get_host s = '''')
   \<and> (\<exists>r. get_nick s = Inr r)
   \<and> (\<exists>r. get_user s False = Inr r)"
proof -
  have nick_absent: "CHR ''!'' \<notin> set s \<longrightarrow> get_nick s = Inr ''''"
    by (simp add: get_nick_def str_find_absent)
  have user_absent: "CHR ''!'' \<notin> set s \<or> CHR ''@'' \<notin> set s \<longrightarrow> get_user s False = Inr ''''"
    by (auto simp add: get_user_def str_find_absent Let_def)
  have host_absent: "CHR ''@'' \<notin> set s \<longrightarrow> get_host s = ''''"
    by (simp add: get_host_def str_find_absent)
  have nick_total: "\<exists>r. get_nick s = Inr r"
  proof (cases "str_find s CHR ''!'' < 1")
    case True
    then show ?thesis by (simp add: get_nick_def)
  next
    case False
    then have "s \<noteq> []" by (auto simp add: str_find_def)
    then show ?thesis
      using False by (simp add: get_nick_def index_0_nonempty Let_def)
  qed
  have user_total: "\<exists>r. get_user s False = Inr r"
    by (simp add: get_user_def Let_def)
  from nick_absent user_absent host_absent nick_total user_total show ?thesis
    by blast
qed

theorem C9_extractors_malformed_witness:
  "get_nick ''nouser@host'' = Inr '''' \<and> get_user ''nouser@host'' False = Inr ''''
   \<and> get_user ''nick!user'' False = Inr '''' \<and> get_host ''nick!user'' = ''''"
proof -
  have a: "CHR ''!'' \<notin> set ''nouser@host''" by simp
  have b: "CHR ''@'' \<notin> set ''nick!user''" by simp
  show ?thesis
    using C9_extractors_malformed [of "''nouser@host''"]
      C9_extractors_malformed [of "''nick!user''"] a b
    by blast
qed


section \<open>Facts about case folding\<close>

lemma lower_char_idem: "lower_char (lower_char c) = lower_char c"
  by (simp add: lower_char_def Let_def)

lemma lower_upper_char: "lower_char (upper_char c) = lower_char c"
  by (auto simp add: lower_char_def upper_char_def Let_def)

lemma lowered_lower: "lowered (str_lower s) = lowered s"
  by (simp add: lowered_def str_lower_def lower_char_idem)

lemma lowered_upper: "lowered (str_upper s) = lowered s"
  by (simp add: lowered_def str_lower_def str_upper_def lower_upper_char)

section \<open>Facts about case-insensitive dictionaries\<close>

lemma contains_iff: "CaseInsensibleDict_contains key d k \<longleftrightarrow> key k \<in> (\<lambda>e. key (fst e)) ` set d"
  unfolding CaseInsensibleDict_contains_def list_ex_iff by force

lemma find_app:
  "List.find P (xs @ ys) = (case List.find P xs of None \<Rightarrow> List.find P ys | Some x \<Rightarrow> Some x)"
  by (induction xs) auto

lemma keys_map_same:
  "map (\<lambda>e. key (fst e)) (map (\<lambda>e. if key (fst e) = x then (fst e, v) else e) d)
     = map (\<lambda>e. key (fst e)) d"
  by (induction d) auto

lemma contains_cong: "key k' = key k \<Longrightarrow>
    CaseInsensibleDict_contains key d k' = CaseInsensibleDict_contains key d k"
  by (simp add: CaseInsensibleDict_contains_def)

lemma getitem_cong: "key k' = key k \<Longrightarrow>
    CaseInsensibleDict_getitem key d k' = CaseInsensibleDict_getitem key d k"
  by (simp add: CaseInsensibleDict_getitem_def)

lemma find_map_same:
  "list_ex (\<lambda>e. key (fst e) = x) d \<Longrightarrow>
   \<exists>k0. List.find (\<lambda>e. key (fst e) = x) (map (\<lambda>e. if key (fst e) = x then (fst e, v) else e) d) = Some (k0, v)"
  by (induction d) auto

lemma getitem_setitem_same:
  "CaseInsensibleDict_getitem key (CaseInsensibleDict_setitem key d k v) k = Inr v"
proof (cases "CaseInsensibleDict_contains key d k")
  case True
  then obtain k0 where "List.find (\<lambda>e. key (fst e) = key k) (map (\<lambda>e. if key (fst e) = key k then (fst e, v) else e) d) = Some (k0, v)"
    using find_map_same [of key "key k" d v] by (auto simp add: CaseInsensibleDict_contains_def)
  with True show ?thesis
    by (simp add: CaseInsensibleDict_getitem_def CaseInsensibleDict_setitem_def)
next
  case False
  then have "List.find (\<lambda>e. key (fst e) = key k) d = None"
    by (auto simp add: CaseInsensibleDict_contains_def list_ex_iff find_None_iff)
  with False show ?thesis
    by (simp add: CaseInsensibleDict_getitem_def CaseInsensibleDict_setitem_def find_app)
qed

lemma find_map_other:
  "x \<noteq> y \<Longrightarrow>
   List.find (\<lambda>e. key (fst e) = y) (map (\<lambda>e. if key (fst e) = x then (fst e, v) else e) d)
     = List.find (\<lambda>e. key (fst e) = y) d"
  by (induction d) auto

lemma getitem_setitem_other:
  "key k' \<noteq> key k \<Longrightarrow>
   CaseInsensibleDict_getitem key (CaseInsensibleDict_setitem key d k v) k'
     = CaseInsensibleDict_getitem key d k'"
  by (auto simp add: CaseInsensibleDict_getitem_def CaseInsensibleDict_setitem_def
      find_map_other find_app split: option.splits)

lemma keys_setitem:
  "(\<lambda>e. key (fst e)) ` set (CaseInsensibleDict_setitem key d k v) = insert (key k) ((\<lambda>e. key (fst e)) ` set d)"
proof (cases "CaseInsensibleDict_contains key d k")
  case True
  have "(\<lambda>e. key (fst e)) ` set (map (\<lambda>e. if key (fst e) = key k then (fst e, v) else e) d)
        = set (map (\<lambda>e. key (fst e)) (map (\<lambda>e. if key (fst e) = key k then (fst e, v) else e) d))"
    by (simp only: set_map)
  also have "\<dots> = (\<lambda>e. key (fst e)) ` set d"
    by (simp only: keys_map_same set_map)
  finally show ?thesis
    using True by (auto simp add: CaseInsensibleDict_setitem_def contains_iff)
next
  case False
  then show ?thesis
    by (simp add: CaseInsensibleDict_setitem_def)
qed

lemma contains_setitem:
  "CaseInsensibleDict_contains key (CaseInsensibleDict_setitem key d k v) k'
     \<longleftrightarrow> key k' = key k \<or> CaseInsensibleDict_contains key d k'"
  by (simp add: contains_iff keys_setitem)

lemma contains_without_key:
  "CaseInsensibleDict_contains key (without_key key d k) k'
     \<longleftrightarrow> key k' \<noteq> key k \<and> CaseInsensibleDict_contains key d k'"
  by (auto simp add: contains_iff without_key_def)

lemma getitem_without_key_other:
  "key k' \<noteq> key k \<Longrightarrow>
   CaseInsensibleDict_getitem key (without_key key d k) k' = CaseInsensibleDict_getitem key d k'"
proof -
  assume ne: "key k' \<noteq> key k"
  have "List.find (\<lambda>e. key (fst e) = key k') (filter (\<lambda>e. key (fst e) \<noteq> key k) d)
        = List.find (\<lambda>e. key (fst e) = key k') d"
    using ne by (induction d) auto
  then show ?thesis
    by (simp add: CaseInsensibleDict_getitem_def without_key_def)
qed

lemma getitem_Inr_contains:
  "CaseInsensibleDict_getitem key d k = Inr v \<Longrightarrow> CaseInsensibleDict_contains key d k"
  by (auto simp add: CaseInsensibleDict_getitem_def CaseInsensibleDict_contains_def list_ex_iff
      find_Some_iff split: option.splits)

lemma contains_getitem:
  "CaseInsensibleDict_contains key d k \<Longrightarrow> \<exists>v. CaseInsensibleDict_getitem key d k = Inr v"
  by (auto simp add: CaseInsensibleDict_getitem_def CaseInsensibleDict_contains_def list_ex_iff
      find_None_iff split: option.splits)

lemma dict_ok_setitem:
  "dict_ok key d \<Longrightarrow> dict_ok key (CaseInsensibleDict_setitem key d k v)"
proof -
  assume ok: "dict_ok key d"
  show ?thesis
  proof (cases "CaseInsensibleDict_contains key d k")
    case True
    then show ?thesis
      using ok unfolding dict_ok_def CaseInsensibleDict_setitem_def
      by (simp only: keys_map_same if_True)
  next
    case False
    then show ?thesis
      using ok by (auto simp add: dict_ok_def CaseInsensibleDict_setitem_def contains_iff)
  qed
qed

lemma dict_ok_without_key: "dict_ok key d \<Longrightarrow> dict_ok key (without_key key d k)"
  by (simp add: dict_ok_def without_key_def distinct_map_filter)

section \<open>Case-insensitive caches\<close>

text \<open>
  Claim C7. Two keys are casings of one another when their \<open>lowered\<close> forms agree; the
  lower-cased and the upper-cased text of a key are such casings. For a dictionary keyed
  by strings (nicks, masks) and for one keyed by \<open>(server, channel)\<close> pairs: a value
  stored under \<open>k\<close> is what a lookup under any casing \<open>k'\<close> returns, membership and
  lookup agree for \<open>k\<close> and \<open>k'\<close> on every dictionary, and deleting under \<open>k'\<close>
  succeeds and leaves no entry under any casing of \<open>k\<close>.
\<close>

theorem C7_case_insensitive_keys:
  "(lowered k' = lowered k \<longrightarrow>
      CaseInsensibleDict_getitem lowered (CaseInsensibleDict_setitem lowered d k v) k' = Inr v
      \<and> CaseInsensibleDict_contains lowered d k' = CaseInsensibleDict_contains lowered d k
      \<and> CaseInsensibleDict_getitem lowered d k' = CaseInsensibleDict_getitem lowered d k
      \<and> (\<exists>d'. CaseInsensibleDict_delitem lowered (CaseInsensibleDict_setitem lowered d k v) k' = Inr d'
            \<and> (\<forall>k''. lowered k'' = lowered k \<longrightarrow> \<not> CaseInsensibleDict_contains lowered d' k'')))
   \<and> lowered (str_lower k) = lowered k \<and> lowered (str_upper k) = lowered k
   \<and> (lowered_pair p' = lowered_pair p \<longrightarrow>
      CaseInsensibleDict_getitem lowered_pair (CaseInsensibleDict_setitem lowered_pair c p w) p' = Inr w
      \<and> CaseInsensibleDict_contains lowered_pair c p' = CaseInsensibleDict_contains lowered_pair c p
      \<and> CaseInsensibleDict_getitem lowered_pair c p' = CaseInsensibleDict_getitem lowered_pair c p
      \<and> (\<exists>c'. CaseInsensibleDict_delitem lowered_pair (CaseInsensibleDict_setitem lowered_pair c p w) p' = Inr c'
            \<and> (\<forall>p''. lowered_pair p'' = lowered_pair p \<longrightarrow> \<not> CaseInsensibleDict_contains lowered_pair c' p'')))"
proof -
  have gen: "\<And>(key :: 'k \<Rightarrow> 'n) (d :: ('k \<times> 'x) list) k k' v. key k' = key k \<Longrightarrow>
      CaseInsensibleDict_getitem key (CaseInsensibleDict_setitem key d k v) k' = Inr v
      \<and> CaseInsensibleDict_contains key d k' = CaseInsensibleDict_contains key d k
      \<and> CaseInsensibleDict_getitem key d k' = CaseInsensibleDict_getitem key d k
      \<and> (\<exists>d'. CaseInsensibleDict_delitem key (CaseInsensibleDict_setitem key d k v) k' = Inr d'
            \<and> (\<forall>k''. key k'' = key k \<longrightarrow> \<not> CaseInsensibleDict_contains key d' k''))"
  proof -
    fix key :: "'k \<Rightarrow> 'n" and d :: "('k \<times> 'x) list" and k k' v
    assume eq: "key k' = key k"
    have g: "CaseInsensibleDict_getitem key (CaseInsensibleDict_setitem key d k v) k' = Inr v"
      using getitem_cong [of key k' k "CaseInsensibleDict_setitem key d k v"] eq
        getitem_setitem_same [of key d k v] by simp
    have c: "CaseInsensibleDict_contains key (CaseInsensibleDict_setitem key d k v) k'"
      using eq by (simp add: contains_setitem)
    have del: "CaseInsensibleDict_delitem key (CaseInsensibleDict_setitem key d k v) k'
                = Inr (without_key key (CaseInsensibleDict_setitem key d k v) k')"
      using c by (simp add: CaseInsensibleDict_delitem_def)
    have gone: "\<forall>k''. key k'' = key k \<longrightarrow>
        \<not> CaseInsensibleDict_contains key (without_key key (CaseInsensibleDict_setitem key d k v) k') k''"
      using eq by (simp add: contains_without_key)
    show "CaseInsensibleDict_getitem key (CaseInsensibleDict_setitem key d k v) k' = Inr v
      \<and> CaseInsensibleDict_contains key d k' = CaseInsensibleDict_contains key d k
      \<and> CaseInsensibleDict_getitem key d k' = CaseInsensibleDict_getitem key d k
      \<and> (\<exists>d'. CaseInsensibleDict_delitem key (CaseInsensibleDict_setitem key d k v) k' = Inr d'
            \<and> (\<forall>k''. key k'' = key k \<longrightarrow> \<not> CaseInsensibleDict_contains key d' k''))"
      using g contains_cong [of key k' k d] getitem_cong [of key k' k d] eq del gone by blast
  qed
  show ?thesis
    using gen [of lowered k' k d v] gen [of lowered_pair p' p c w] lowered_lower lowered_upper
    by blast
qed

text \<open>
  The instance of claim C7 at the key \<open>Alice\<close>, looked up as \<open>ALICE\<close> and \<open>alice\<close>,
  and at a \<open>(server, channel)\<close> key.
\<close>

theorem C7_case_insensitive_keys_witness:
  "CaseInsensibleDict_getitem lowered
     (CaseInsensibleDict_setitem lowered [(''Bob'', 1 :: nat)] ''Alice'' 2) ''ALICE'' = Inr 2
   \<and> CaseInsensibleDict_getitem lowered
     (CaseInsensibleDict_setitem lowered [(''Bob'', 1 :: nat)] ''Alice'' 2) ''alice'' = Inr 2
   \<and> CaseInsensibleDict_getitem lowered_pair
     (CaseInsensibleDict_setitem lowered_pair [] (''Freenode'', ''#Chan'') (7 :: nat))
     (''freenode'', ''#CHAN'') = Inr 7"
proof -
  have a: "lowered ''ALICE'' = lowered ''Alice''" by code_simp
  have b: "lowered ''alice'' = lowered ''Alice''" by code_simp
  have c: "lowered_pair (''freenode'', ''#CHAN'') = lowered_pair (''Freenode'', ''#Chan'')"
    by code_simp
  show ?thesis
    using C7_case_insensitive_keys [of "''ALICE''" "''Alice''" "[(''Bob'', 1 :: nat)]" 2
        "(''freenode'', ''#CHAN'')" "(''Freenode'', ''#Chan'')" "[]" "7 :: nat"]
      C7_case_insensitive_keys [of "''alice''" "''Alice''" "[(''Bob'', 1 :: nat)]" 2
        "(''freenode'', ''#CHAN'')" "(''Freenode'', ''#Chan'')" "[]" "7 :: nat"]
      a b c
    by blast
qed


section \<open>Searching the mask lists\<close>

lemma hostmask_pattern_match_nonempty:
  "hostmask_pattern_match p xs \<noteq> [] \<Longrightarrow> is_hostmask p"
  by (simp add: hostmask_pattern_match_def split: if_splits)

lemma MaskList_searchByHostmask_shape:
  "m \<in> set (MaskList_searchByHostmask ml h) \<Longrightarrow> is_hostmask m \<and> m \<in> fst ` set (ml_items ml)"
  by (auto simp add: MaskList_searchByHostmask_def dest: hostmask_pattern_match_nonempty)

lemma MaskCache_searchByHostmask_shape:
  "m \<in> set (MaskCache_searchByHostmask mc ho server channel) \<Longrightarrow> is_hostmask m"
proof -
  assume m: "m \<in> set (MaskCache_searchByHostmask mc ho server channel)"
  show ?thesis
  proof (cases ho)
    case None
    then have "MaskCache_searchByHostmask mc ho server channel = []"
      by (simp add: MaskCache_searchByHostmask_def)
    with m show ?thesis by simp
  next
    case (Some hm)
    show ?thesis
    proof (cases "CaseInsensibleDict_getitem lowered_pair (mc_items mc) (server, channel)")
      case (Inl e)
      with Some have "MaskCache_searchByHostmask mc ho server channel = []"
        by (simp add: MaskCache_searchByHostmask_def)
      with m show ?thesis by simp
    next
      case (Inr ml)
      with Some have "MaskCache_searchByHostmask mc ho server channel
          = (if hm \<noteq> [] then MaskList_searchByHostmask ml hm else [])"
        by (simp add: MaskCache_searchByHostmask_def)
      with m have "m \<in> set (MaskList_searchByHostmask ml hm)"
        by (cases "hm = []") simp_all
      then show ?thesis
        using MaskList_searchByHostmask_shape by blast
    qed
  qed
qed

text \<open>
  Claim C10. A pattern that is not hostmask-shaped matches nothing in
  \<open>hostmask_pattern_match\<close>; every mask that \<open>MaskList.searchByHostmask\<close> returns is a
  stored key of hostmask shape; and so is every mask that the cache-level searches by
  hostmask and by nick return.
\<close>

theorem C10_search_returns_hostmask_shaped:
  "(\<not> is_hostmask p \<longrightarrow> hostmask_pattern_match p xs = [])
   \<and> (\<forall>m \<in> set (MaskList_searchByHostmask ml h).
         is_hostmask m \<and> m \<in> fst ` set (ml_items ml))
   \<and> (\<forall>m \<in> set (MaskCache_searchByHostmask mc ho server channel). is_hostmask m)
   \<and> (\<forall>r. MaskCache_searchByNick infolist uc mc nick server channel = Inr r \<longrightarrow>
         (\<forall>m \<in> set (fst r). is_hostmask m))"
proof -
  have a: "\<not> is_hostmask p \<longrightarrow> hostmask_pattern_match p xs = []"
    by (simp add: hostmask_pattern_match_def)
  have b: "\<forall>m \<in> set (MaskList_searchByHostmask ml h).
         is_hostmask m \<and> m \<in> fst ` set (ml_items ml)"
    using MaskList_searchByHostmask_shape by blast
  have c: "\<forall>m \<in> set (MaskCache_searchByHostmask mc ho server channel). is_hostmask m"
    using MaskCache_searchByHostmask_shape by blast
  have d: "\<forall>r. MaskCache_searchByNick infolist uc mc nick server channel = Inr r \<longrightarrow>
         (\<forall>m \<in> set (fst r). is_hostmask m)"
    by (auto simp add: MaskCache_searchByNick_def dest: MaskCache_searchByHostmask_shape
        split: sum.splits)
  from a b c d show ?thesis by blast
qed

text \<open>
  The instance of claim C10 on a list holding the masks \<open>*!*@host.example\<close> and
  \<open>nick*\<close>: the hostmask \<open>nick!user@host.example\<close> matches both as wildcard patterns, and
  only the first is returned.
\<close>

theorem C10_search_returns_hostmask_shaped_witness:
  "hostmask_pattern_match ''nick*'' (Str ''nick!user@host.example'') = []
   \<and> MaskList_searchByHostmask example_masks ''nick!user@host.example'' = [''*!*@host.example'']
   \<and> is_hostmask ''*!*@host.example''"
proof -
  have n: "\<not> is_hostmask ''nick*''" by code_simp
  have r: "MaskList_searchByHostmask example_masks ''nick!user@host.example''
             = [''*!*@host.example'']"
    by code_simp
  have s: "is_hostmask ''*!*@host.example''"
    using C10_search_returns_hostmask_shaped
      [of "''nick*''" "Str ''nick!user@host.example''" example_masks "''nick!user@host.example''"]
      r by simp
  have e: "hostmask_pattern_match ''nick*'' (Str ''nick!user@host.example'') = []"
    using C10_search_returns_hostmask_shaped
      [of "''nick*''" "Str ''nick!user@host.example''" example_masks "''nick!user@host.example''"]
      n by blast
  from e r s show ?thesis by blast
qed

section \<open>Merging mask records\<close>

lemma update_attrs_getattr:
  "getattr (update_attrs ob d) a = (if truthy (kwarg d a) then kwarg d a else getattr ob a)"
  by (cases a) (auto simp add: update_attrs_def kwarg_def split: option.splits)

lemma update_attrs_mask: "mo_mask (update_attrs ob d) = mo_mask ob"
  by (auto simp add: update_attrs_def split: option.splits)

lemma MaskList_setitem_existing:
  assumes "CaseInsensibleDict_getitem lowered (ml_items ml) m = Inr ob"
  shows "MaskList_setitem now ml m d =
     Inr (ml\<lparr>ml_items := CaseInsensibleDict_setitem lowered (ml_items ml) m (update_attrs ob d)\<rparr>)"
  using assms getitem_Inr_contains [of lowered "ml_items ml" m ob]
  by (simp add: MaskList_setitem_def)

lemma MaskList_setitem_new:
  assumes "\<not> CaseInsensibleDict_contains lowered (ml_items ml) m"
    and "MaskObject_init now m d = Inr ob"
  shows "MaskList_setitem now ml m d =
     Inr (ml\<lparr>ml_items := CaseInsensibleDict_setitem lowered (ml_items ml) m ob\<rparr>)"
  using assms by (simp add: MaskList_setitem_def)

lemma dict_ok_count:
  "dict_ok key d \<Longrightarrow> CaseInsensibleDict_contains key d k \<Longrightarrow>
   length (filter (\<lambda>e. key (fst e) = key k) d) = 1"
proof (induction d)
  case Nil
  then show ?case by (simp add: CaseInsensibleDict_contains_def)
next
  case (Cons e d)
  show ?case
  proof (cases "key (fst e) = key k")
    case True
    with Cons.prems have "key k \<notin> (\<lambda>e. key (fst e)) ` set d"
      by (auto simp add: dict_ok_def)
    then have "filter (\<lambda>e. key (fst e) = key k) d = []"
      unfolding filter_empty_conv by force
    with True show ?thesis by simp
  next
    case False
    with Cons.prems have "dict_ok key d" "CaseInsensibleDict_contains key d k"
      by (auto simp add: dict_ok_def CaseInsensibleDict_contains_def)
    with Cons.IH False show ?thesis by simp
  qed
qed

lemma MaskList_setitem_dict_ok:
  assumes "dict_ok lowered (ml_items ml)" and "MaskList_setitem now ml m d = Inr ml'"
  shows "dict_ok lowered (ml_items ml')"
proof (cases "CaseInsensibleDict_contains lowered (ml_items ml) m")
  case True
  then obtain old where old: "CaseInsensibleDict_getitem lowered (ml_items ml) m = Inr old"
    using contains_getitem [of lowered "ml_items ml" m] by blast
  from assms(2) have "ml' = ml\<lparr>ml_items :=
      CaseInsensibleDict_setitem lowered (ml_items ml) m (update_attrs old d)\<rparr>"
    by (simp add: MaskList_setitem_existing [OF old])
  with assms(1) show ?thesis by (simp add: dict_ok_setitem)
next
  case False
  with assms(2) obtain ob where "ml' = ml\<lparr>ml_items :=
      CaseInsensibleDict_setitem lowered (ml_items ml) m ob\<rparr>"
    by (auto simp add: MaskList_setitem_def split: sum.splits)
  with assms(1) show ?thesis by (simp add: dict_ok_setitem)
qed

text \<open>
  Claim C6. Adding mask \<open>m\<close> with operator \<open>A\<close> and date 100 and then with date 200 only
  succeeds twice and leaves one record for \<open>m\<close>, with operator \<open>A\<close> and date 200.
  In general, setting a mask that is already stored succeeds and overwrites exactly the
  slots whose new value is true in Python's sense; a slot whose new value is absent or
  empty keeps its prior value.
\<close>

theorem C6_mask_merge:
  "(dict_ok lowered (ml_items ml) \<longrightarrow>
     (\<exists>ml1 ml2 ob.
        MaskList_setitem t1 ml m [Operator \<mapsto> PStr ''A'', Date \<mapsto> PInt 100] = Inr ml1
        \<and> MaskList_setitem t2 ml1 m [Date \<mapsto> PInt 200] = Inr ml2
        \<and> CaseInsensibleDict_getitem lowered (ml_items ml2) m = Inr ob
        \<and> mo_operator ob = PStr ''A'' \<and> mo_date ob = PInt 200
        \<and> length (filter (\<lambda>e. lowered (fst e) = lowered m) (ml_items ml2)) = 1))
   \<and> (CaseInsensibleDict_getitem lowered (ml_items ml) m = Inr old \<longrightarrow>
     (\<exists>ml' new.
        MaskList_setitem now ml m d = Inr ml'
        \<and> CaseInsensibleDict_getitem lowered (ml_items ml') m = Inr new
        \<and> mo_mask new = mo_mask old
        \<and> (\<forall>a. getattr new a = (if truthy (kwarg d a) then kwarg d a else getattr old a))))"
proof -
  let ?d1 = "[Operator \<mapsto> PStr ''A'', Date \<mapsto> PInt 100]"
  let ?d2 = "[Date \<mapsto> PInt 200]"
  have general: "\<And>ml old now d. CaseInsensibleDict_getitem lowered (ml_items ml) m = Inr old \<Longrightarrow>
     MaskList_setitem now ml m d =
       Inr (ml\<lparr>ml_items := CaseInsensibleDict_setitem lowered (ml_items ml) m (update_attrs old d)\<rparr>)
     \<and> CaseInsensibleDict_getitem lowered
         (ml_items (ml\<lparr>ml_items := CaseInsensibleDict_setitem lowered (ml_items ml) m (update_attrs old d)\<rparr>)) m
         = Inr (update_attrs old d)"
    by (simp add: MaskList_setitem_existing getitem_setitem_same)
  have first: "\<exists>ml1 ob1. MaskList_setitem t1 ml m ?d1 = Inr ml1
      \<and> CaseInsensibleDict_getitem lowered (ml_items ml1) m = Inr ob1
      \<and> mo_operator ob1 = PStr ''A''
      \<and> ml_items ml1 = CaseInsensibleDict_setitem lowered (ml_items ml) m ob1"
  proof (cases "CaseInsensibleDict_contains lowered (ml_items ml) m")
    case True
    then obtain old where old: "CaseInsensibleDict_getitem lowered (ml_items ml) m = Inr old"
      using contains_getitem [of lowered "ml_items ml" m] by blast
    have "mo_operator (update_attrs old ?d1) = PStr ''A''"
      using update_attrs_getattr [of old ?d1 Operator] by (simp add: kwarg_def)
    with general [OF old, of t1 ?d1] show ?thesis by simp
  next
    case False
    have "MaskObject_init t1 m ?d1 =
        Inr \<lparr>mo_mask = m, mo_hostmask = PNone, mo_operator = PStr ''A'',
             mo_date = PInt 100, mo_expires = PNone\<rparr>"
      by (simp add: MaskObject_init_def kwarg_def)
    with False show ?thesis
      by (simp add: MaskList_setitem_new getitem_setitem_same)
  qed
  then obtain ml1 ob1 where ml1: "MaskList_setitem t1 ml m ?d1 = Inr ml1"
    and ob1: "CaseInsensibleDict_getitem lowered (ml_items ml1) m = Inr ob1"
    and op1: "mo_operator ob1 = PStr ''A''"
    and items1: "ml_items ml1 = CaseInsensibleDict_setitem lowered (ml_items ml) m ob1"
    by blast
  let ?ob2 = "update_attrs ob1 ?d2"
  let ?ml2 = "ml1\<lparr>ml_items := CaseInsensibleDict_setitem lowered (ml_items ml1) m ?ob2\<rparr>"
  have second: "MaskList_setitem t2 ml1 m ?d2 = Inr ?ml2"
    and get2: "CaseInsensibleDict_getitem lowered (ml_items ?ml2) m = Inr ?ob2"
    using general [OF ob1, of t2 ?d2] by simp_all
  have op2: "mo_operator ?ob2 = PStr ''A''"
    using update_attrs_getattr [of ob1 ?d2 Operator] op1 by (simp add: kwarg_def)
  have date2: "mo_date ?ob2 = PInt 200"
    using update_attrs_getattr [of ob1 ?d2 Date] by (simp add: kwarg_def)
  have one: "dict_ok lowered (ml_items ml) \<longrightarrow>
     length (filter (\<lambda>e. lowered (fst e) = lowered m) (ml_items ?ml2)) = 1"
  proof
    assume ok: "dict_ok lowered (ml_items ml)"
    have "dict_ok lowered (ml_items ?ml2)"
      using ok items1 by (simp add: dict_ok_setitem)
    moreover have "CaseInsensibleDict_contains lowered (ml_items ?ml2) m"
      by (simp add: contains_setitem)
    ultimately show "length (filter (\<lambda>e. lowered (fst e) = lowered m) (ml_items ?ml2)) = 1"
      by (rule dict_ok_count)
  qed
  have scenario: "dict_ok lowered (ml_items ml) \<longrightarrow>
     (\<exists>ml1 ml2 ob.
        MaskList_setitem t1 ml m ?d1 = Inr ml1
        \<and> MaskList_setitem t2 ml1 m ?d2 = Inr ml2
        \<and> CaseInsensibleDict_getitem lowered (ml_items ml2) m = Inr ob
        \<and> mo_operator ob = PStr ''A'' \<and> mo_date ob = PInt 200
        \<and> length (filter (\<lambda>e. lowered (fst e) = lowered m) (ml_items ml2)) = 1)"
    using ml1 second get2 op2 date2 one by blast
  have law: "CaseInsensibleDict_getitem lowered (ml_items ml) m = Inr old \<longrightarrow>
     (\<exists>ml' new.
        MaskList_setitem now ml m d = Inr ml'
        \<and> CaseInsensibleDict_getitem lowered (ml_items ml') m = Inr new
        \<and> mo_mask new = mo_mask old
        \<and> (\<forall>a. getattr new a = (if truthy (kwarg d a) then kwarg d a else getattr old a)))"
    using general [of ml old now d] update_attrs_getattr [of old d] update_attrs_mask [of old d]
    by blast
  from scenario law show ?thesis by blast
qed

text \<open>The instance of claim C6 on the empty list.\<close>

theorem C6_mask_merge_witness:
  "(\<exists>ml1 ml2 ob.
        MaskList_setitem 5 MaskList_init ''*!*@Host.example'' [Operator \<mapsto> PStr ''A'', Date \<mapsto> PInt 100] = Inr ml1
        \<and> MaskList_setitem 9 ml1 ''*!*@Host.example'' [Date \<mapsto> PInt 200] = Inr ml2
        \<and> CaseInsensibleDict_getitem lowered (ml_items ml2) ''*!*@Host.example'' = Inr ob
        \<and> mo_operator ob = PStr ''A'' \<and> mo_date ob = PInt 200
        \<and> length (filter (\<lambda>e. lowered (fst e) = lowered ''*!*@Host.example'') (ml_items ml2)) = 1)"
proof -
  have ok: "dict_ok lowered (ml_items MaskList_init)"
    by (simp add: dict_ok_def MaskList_init_def)
  show ?thesis
    using C6_mask_merge [of MaskList_init 5 "''*!*@Host.example''" 9] ok by blast
qed


section \<open>The user list\<close>

lemma without_key_absent:
  "\<not> CaseInsensibleDict_contains key d k \<Longrightarrow> without_key key d k = d"
  unfolding contains_iff without_key_def filter_id_conv by force

lemma purge_step_fresh: "\<not> now - snd e > 3600 \<Longrightarrow> purge_step now e self = self"
  by (simp add: purge_step_def)

lemma purge_step_expired:
  assumes "now - snd e > 3600" and "CaseInsensibleDict_contains lowered (temp_users self) (fst e)"
  shows "purge_step now e self =
     self\<lparr>ul_items := without_key lowered (ul_items self) (fst e),
          temp_users := without_key lowered (temp_users self) (fst e)\<rparr>"
proof (cases "CaseInsensibleDict_contains lowered (ul_items self) (fst e)")
  case True
  with assms show ?thesis
    by (simp add: purge_step_def CaseInsensibleDict_delitem_def)
next
  case False
  with assms show ?thesis
    by (simp add: purge_step_def CaseInsensibleDict_delitem_def without_key_absent)
qed

lemma purge_fold:
  "distinct (map (\<lambda>e. lowered (fst e)) xs) \<Longrightarrow> set xs \<subseteq> set (temp_users self) \<Longrightarrow>
   fold (purge_step now) xs self =
     self\<lparr>ul_items := filter (\<lambda>e. \<not> expired_key now xs (fst e)) (ul_items self),
          temp_users := filter (\<lambda>e. \<not> expired_key now xs (fst e)) (temp_users self)\<rparr>"
proof (induction xs arbitrary: self)
  case Nil
  then show ?case by (simp add: expired_key_def)
next
  case (Cons x xs)
  have dist: "distinct (map (\<lambda>e. lowered (fst e)) xs)"
    and fresh: "lowered (fst x) \<notin> (\<lambda>e. lowered (fst e)) ` set xs"
    using Cons.prems(1) by simp_all
  show ?case
  proof (cases "now - snd x > 3600")
    case False
    then have step: "purge_step now x self = self" by (rule purge_step_fresh)
    have same: "\<And>k. expired_key now (x # xs) k = expired_key now xs k"
      using False by (simp add: expired_key_def)
    have "set xs \<subseteq> set (temp_users self)" using Cons.prems(2) by simp
    from Cons.IH [OF dist this] step same show ?thesis by simp
  next
    case True
    have "x \<in> set (temp_users self)" using Cons.prems(2) by simp
    then have "CaseInsensibleDict_contains lowered (temp_users self) (fst x)"
      unfolding contains_iff by blast
    with True have step: "purge_step now x self =
       self\<lparr>ul_items := without_key lowered (ul_items self) (fst x),
            temp_users := without_key lowered (temp_users self) (fst x)\<rparr>"
      by (rule purge_step_expired)
    let ?self' = "self\<lparr>ul_items := without_key lowered (ul_items self) (fst x),
            temp_users := without_key lowered (temp_users self) (fst x)\<rparr>"
    have sub: "set xs \<subseteq> set (temp_users ?self')"
    proof
      fix e assume e: "e \<in> set xs"
      then have "lowered (fst e) \<in> (\<lambda>e. lowered (fst e)) ` set xs"
        by (intro image_eqI [where x = e]) simp_all
      with fresh have "lowered (fst e) \<noteq> lowered (fst x)" by metis
      moreover have "e \<in> set (temp_users self)" using e Cons.prems(2) by auto
      ultimately show "e \<in> set (temp_users ?self')" by (simp add: without_key_def)
    qed
    have split: "\<And>k. expired_key now (x # xs) k \<longleftrightarrow>
        lowered (fst x) = lowered k \<or> expired_key now xs k"
      using True by (simp add: expired_key_def)
    have f: "\<And>(d :: (string \<times> 'a) list).
        filter (\<lambda>e. \<not> expired_key now xs (fst e)) (without_key lowered d (fst x))
        = filter (\<lambda>e. \<not> expired_key now (x # xs) (fst e)) d"
      by (auto simp add: without_key_def split intro: filter_cong)
    from Cons.IH [OF dist sub] step show ?thesis
      by (simp add: f)
  qed
qed

lemma expired_key_own:
  "dict_ok lowered ts \<Longrightarrow> e \<in> set ts \<Longrightarrow> expired_key now ts (fst e) \<longleftrightarrow> now - snd e > 3600"
proof -
  assume ok: "dict_ok lowered ts" and e: "e \<in> set ts"
  have inj: "inj_on (\<lambda>e. lowered (fst e)) (set ts)"
    using ok by (simp add: dict_ok_def distinct_map)
  show ?thesis
  proof
    assume "expired_key now ts (fst e)"
    then obtain t where t: "t \<in> set ts" "now - snd t > 3600" "lowered (fst t) = lowered (fst e)"
      by (auto simp add: expired_key_def list_ex_iff)
    with inj e have "t = e" by (auto dest: inj_onD)
    with t show "now - snd e > 3600" by simp
  next
    assume "now - snd e > 3600"
    with e show "expired_key now ts (fst e)"
      by (auto simp add: expired_key_def list_ex_iff)
  qed
qed

lemma UserList_purge_eq:
  assumes "dict_ok lowered (temp_users ul)"
  shows "UserList_purge now ul =
     ul\<lparr>ul_items := filter (\<lambda>e. \<not> expired_key now (temp_users ul) (fst e)) (ul_items ul),
        temp_users := filter (\<lambda>e. \<not> now - snd e > 3600) (temp_users ul)\<rparr>"
proof -
  have "filter (\<lambda>e. \<not> expired_key now (temp_users ul) (fst e)) (temp_users ul)
        = filter (\<lambda>e. \<not> now - snd e > 3600) (temp_users ul)"
  proof (rule filter_cong [OF refl])
    fix e assume "e \<in> set (temp_users ul)"
    then show "(\<not> expired_key now (temp_users ul) (fst e)) = (\<not> now - snd e > 3600)"
      using assms expired_key_own [of "temp_users ul" e now] by simp
  qed
  then show ?thesis
    using assms purge_fold [of "temp_users ul" ul now]
    by (simp add: UserList_purge_def dict_ok_def)
qed

lemma purge_step_keeps:
  "\<not> CaseInsensibleDict_contains lowered (temp_users self) k \<Longrightarrow>
   CaseInsensibleDict_getitem lowered (ul_items (purge_step now e self)) k
     = CaseInsensibleDict_getitem lowered (ul_items self) k
   \<and> \<not> CaseInsensibleDict_contains lowered (temp_users (purge_step now e self)) k"
proof -
  assume nk: "\<not> CaseInsensibleDict_contains lowered (temp_users self) k"
  show ?thesis
  proof (cases "now - snd e > 3600 \<and> CaseInsensibleDict_contains lowered (temp_users self) (fst e)")
    case True
    then have ne: "lowered k \<noteq> lowered (fst e)"
      using nk contains_cong [of lowered k "fst e" "temp_users self"] by auto
    from True have "purge_step now e self =
       self\<lparr>ul_items := without_key lowered (ul_items self) (fst e),
            temp_users := without_key lowered (temp_users self) (fst e)\<rparr>"
      by (simp add: purge_step_expired)
    with ne nk show ?thesis
      by (simp add: getitem_without_key_other contains_without_key)
  next
    case False
    then have "purge_step now e self = self"
      by (auto simp add: purge_step_def CaseInsensibleDict_delitem_def)
    with nk show ?thesis by simp
  qed
qed

lemma purge_fold_keeps:
  "\<not> CaseInsensibleDict_contains lowered (temp_users self) k \<Longrightarrow>
   CaseInsensibleDict_getitem lowered (ul_items (fold (purge_step now) xs self)) k
     = CaseInsensibleDict_getitem lowered (ul_items self) k
   \<and> \<not> CaseInsensibleDict_contains lowered (temp_users (fold (purge_step now) xs self)) k"
proof (induction xs arbitrary: self)
  case Nil
  then show ?case by simp
next
  case (Cons x xs)
  from purge_step_keeps [OF Cons.prems, of now x]
  have a: "CaseInsensibleDict_getitem lowered (ul_items (purge_step now x self)) k
     = CaseInsensibleDict_getitem lowered (ul_items self) k"
    and b: "\<not> CaseInsensibleDict_contains lowered (temp_users (purge_step now x self)) k"
    by simp_all
  from Cons.IH [OF b] a show ?case by simp
qed

text \<open>
  Claim C5. \<open>part_cb\<close> and \<open>quit_cb\<close> call \<open>UserList.remove\<close>, \<open>join_cb\<close> and
  \<open>nick_cb\<close> store through \<open>UserList.__setitem__\<close>. Removing a nick at time \<open>t0\<close>
  leaves the nick-to-hostmask entries as they are and records \<open>t0\<close> for the nick; storing
  a nick makes it visible with the new hostmask and clears its marker; \<open>purge\<close> at time
  \<open>now\<close> keeps exactly the markers that are at most 3600 seconds old and deletes exactly
  the users whose marker is older; and a nick removed and then stored again is visible
  with the new hostmask before and after any later \<open>purge\<close>.
\<close>

theorem C5_pending_removal:
  "ul_items (UserList_remove t0 ul nick) = ul_items ul
   \<and> CaseInsensibleDict_getitem lowered (temp_users (UserList_remove t0 ul nick)) nick = Inr t0
   \<and> CaseInsensibleDict_getitem lowered (ul_items (UserList_setitem ul nick host)) nick = Inr host
   \<and> \<not> CaseInsensibleDict_contains lowered (temp_users (UserList_setitem ul nick host)) nick
   \<and> (dict_ok lowered (temp_users ul) \<longrightarrow>
        temp_users (UserList_purge now ul)
          = filter (\<lambda>e. \<not> now - snd e > 3600) (temp_users ul)
        \<and> ul_items (UserList_purge now ul)
          = filter (\<lambda>e. \<not> expired_key now (temp_users ul) (fst e)) (ul_items ul))
   \<and> CaseInsensibleDict_getitem lowered
        (ul_items (UserList_purge now (UserList_setitem (UserList_remove t0 ul nick) nick host))) nick
        = Inr host
   \<and> \<not> CaseInsensibleDict_contains lowered
        (temp_users (UserList_purge now (UserList_setitem (UserList_remove t0 ul nick) nick host))) nick"
proof -
  have a: "ul_items (UserList_remove t0 ul nick) = ul_items ul"
    by (simp add: UserList_remove_def)
  have b: "CaseInsensibleDict_getitem lowered (temp_users (UserList_remove t0 ul nick)) nick = Inr t0"
    by (simp add: UserList_remove_def getitem_setitem_same)
  have c: "\<And>u. CaseInsensibleDict_getitem lowered (ul_items (UserList_setitem u nick host)) nick = Inr host"
    by (simp add: UserList_setitem_def Let_def getitem_setitem_same)
  have d: "\<And>u. \<not> CaseInsensibleDict_contains lowered (temp_users (UserList_setitem u nick host)) nick"
    by (simp add: UserList_setitem_def Let_def contains_without_key)
  have e: "dict_ok lowered (temp_users ul) \<longrightarrow>
        temp_users (UserList_purge now ul)
          = filter (\<lambda>e. \<not> now - snd e > 3600) (temp_users ul)
        \<and> ul_items (UserList_purge now ul)
          = filter (\<lambda>e. \<not> expired_key now (temp_users ul) (fst e)) (ul_items ul)"
    by (simp add: UserList_purge_eq)
  let ?u = "UserList_setitem (UserList_remove t0 ul nick) nick host"
  have f: "CaseInsensibleDict_getitem lowered (ul_items (UserList_purge now ?u)) nick = Inr host"
    using purge_fold_keeps [OF d [of "UserList_remove t0 ul nick"], of now "temp_users ?u"]
      c [of "UserList_remove t0 ul nick"]
    by (simp add: UserList_purge_def)
  have g: "\<not> CaseInsensibleDict_contains lowered (temp_users (UserList_purge now ?u)) nick"
    using purge_fold_keeps [OF d [of "UserList_remove t0 ul nick"], of now "temp_users ?u"]
    by (simp add: UserList_purge_def)
  from a b c [of ul] d [of ul] e f g show ?thesis by blast
qed

lemma UserList_ops_dict_ok:
  assumes "dict_ok lowered (ul_items ul)" and "dict_ok lowered (temp_users ul)"
  shows "dict_ok lowered (ul_items (UserList_remove t0 ul nick))
     \<and> dict_ok lowered (temp_users (UserList_remove t0 ul nick))
     \<and> dict_ok lowered (ul_items (UserList_setitem ul nick host))
     \<and> dict_ok lowered (temp_users (UserList_setitem ul nick host))
     \<and> dict_ok lowered (ul_items (UserList_purge now ul))
     \<and> dict_ok lowered (temp_users (UserList_purge now ul))"
proof -
  have p: "\<And>P (d :: (string \<times> 'a) list). dict_ok lowered d \<Longrightarrow> dict_ok lowered (filter P d)"
    by (simp add: dict_ok_def distinct_map_filter)
  show ?thesis
    using assms
    by (simp add: UserList_remove_def UserList_setitem_def Let_def dict_ok_setitem
        dict_ok_without_key UserList_purge_eq p)
qed

text \<open>
  The instance of claim C5 on a list with the users \<open>Alice\<close> and \<open>Bob\<close>, where \<open>bob\<close>
  was marked at time 1000: a purge at time 5000 deletes Bob and his marker and keeps
  Alice; Alice, removed at time 1000 and stored again with a new hostmask, is still there
  after a purge at time 9999.
\<close>

theorem C5_pending_removal_witness:
  "temp_users (UserList_purge 5000 example_users) = []
   \<and> ul_items (UserList_purge 5000 example_users) = [(''Alice'', ''Alice!a@old.example'')]
   \<and> CaseInsensibleDict_getitem lowered
        (ul_items (UserList_purge 9999
           (UserList_setitem (UserList_remove 1000 example_users ''Alice'')
              ''Alice'' ''Alice!a@new.example''))) ''Alice''
        = Inr ''Alice!a@new.example''"
proof -
  have ok: "dict_ok lowered (temp_users example_users)"
    by (simp add: dict_ok_def example_users_def)
  have r1: "filter (\<lambda>e. \<not> 5000 - snd e > 3600) (temp_users example_users) = []"
    by code_simp
  have r2: "filter (\<lambda>e. \<not> expired_key 5000 (temp_users example_users) (fst e))
              (ul_items example_users) = [(''Alice'', ''Alice!a@old.example'')]"
    by code_simp
  have p: "temp_users (UserList_purge 5000 example_users) = []
      \<and> ul_items (UserList_purge 5000 example_users) = [(''Alice'', ''Alice!a@old.example'')]"
    using C5_pending_removal [of 1000 example_users "''Alice''" "''Alice!a@new.example''" 5000]
      ok r1 r2 by simp
  have q: "CaseInsensibleDict_getitem lowered
        (ul_items (UserList_purge 9999
           (UserList_setitem (UserList_remove 1000 example_users ''Alice'')
              ''Alice'' ''Alice!a@new.example''))) ''Alice''
        = Inr ''Alice!a@new.example''"
    using C5_pending_removal [of 1000 example_users "''Alice''" "''Alice!a@new.example''" 9999]
    by blast
  from p q show ?thesis by blast
qed


section \<open>Ban masks for webchat users\<close>

lemma get_user_untrimmed_total: "\<exists>u. get_user hostmask False = Inr u"
  by (simp add: get_user_def Let_def)

lemma is_ip_empty: "\<not> is_ip inet_aton []"
  by (simp add: is_ip_def str_count_def)

lemma hex_to_ip_short: "length user \<noteq> 8 \<Longrightarrow> hex_to_ip user = []"
  by (simp add: hex_to_ip_def)

text \<open>
  With trimming, \<open>get_user\<close> reads the first character of the user part without
  testing that there is one.
\<close>

lemma get_user_trim_empty_user: "get_user ''ab!@h'' True = Inl IndexError"
  by code_simp

text \<open>
  Claim C8, as stated, fails when the configured strategy list holds \<open>exact\<close> next to
  \<open>webchat\<close> (the setting \<open>default_banmask\<close> may be \<open>exact,webchat\<close>): \<open>exact\<close> is
  tested first and the hostmask itself is returned, neither \<open>*!user@*\<close> nor
  \<open>*!*@host\<close>.
\<close>

theorem C8_exact_before_webchat_counterexample:
  "''webchat'' \<in> set [''exact'', ''webchat'']
   \<and> make_banmask example_inet_aton [''exact'', ''webchat''] ''nick!~user@host.example''
       = Inr ''nick!~user@host.example''"
  by (simp add: make_banmask_def)

text \<open>
  Claim C8, amended. With \<open>webchat\<close> in the strategy list and \<open>exact\<close> not in it, for a
  hostmask from which the trimmed user part \<open>user\<close> can be read: the result is
  \<open>*!u@*\<close>, \<open>u\<close> the untrimmed user part, when the host part is not a valid hostname,
  \<open>hex_to_ip user\<close> is an IP address and does not occur in the host part; in every other
  case it is \<open>*!*@host\<close>. In particular the result is \<open>*!*@host\<close> when the host part is
  a valid hostname and when the trimmed user part is not eight characters long.
\<close>

theorem C8_webchat_banmask:
  assumes "''webchat'' \<in> set banmask" and "''exact'' \<notin> set banmask"
    and "get_user hostmask True = Inr user"
  shows "\<exists>u. get_user hostmask False = Inr u
     \<and> make_banmask inet_aton banmask hostmask =
         Inr (if \<not> is_hostname (get_host hostmask)
                 \<and> is_ip inet_aton (hex_to_ip user)
                 \<and> \<not> str_contains (hex_to_ip user) (get_host hostmask)
              then ''*!'' @ u @ ''@*''
              else ''*!*@'' @ get_host hostmask)
     \<and> (is_hostname (get_host hostmask) \<or> length user \<noteq> 8
          \<longrightarrow> make_banmask inet_aton banmask hostmask = Inr (''*!*@'' @ get_host hostmask))"
proof -
  obtain u where u: "get_user hostmask False = Inr u"
    using get_user_untrimmed_total by blast
  have ne: "banmask \<noteq> []" using assms(1) by auto
  have main: "make_banmask inet_aton banmask hostmask =
         Inr (if \<not> is_hostname (get_host hostmask)
                 \<and> is_ip inet_aton (hex_to_ip user)
                 \<and> \<not> str_contains (hex_to_ip user) (get_host hostmask)
              then ''*!'' @ u @ ''@*''
              else ''*!*@'' @ get_host hostmask)"
    using assms ne u by (simp add: make_banmask_def Let_def)
  have special: "is_hostname (get_host hostmask) \<or> length user \<noteq> 8
          \<longrightarrow> make_banmask inet_aton banmask hostmask = Inr (''*!*@'' @ get_host hostmask)"
    using main by (auto simp add: hex_to_ip_short is_ip_empty)
  from u main special show ?thesis by blast
qed

text \<open>
  The instance of claim C8 on a webchat user, whose user part \<open>7f000001\<close> decodes to
  \<open>127.0.0.1\<close>, and on a user with an ordinary host.
\<close>

theorem C8_webchat_banmask_witness:
  "make_banmask example_inet_aton [''webchat'']
      ''nick!~7f000001@gateway/web/freenode/x-abc'' = Inr ''*!~7f000001@*''
   \<and> make_banmask example_inet_aton [''webchat''] ''nick!~user@host.example''
      = Inr ''*!*@host.example''"
proof -
  have w: "''webchat'' \<in> set [''webchat'']" and e: "''exact'' \<notin> set [''webchat'']"
    by simp_all
  have u1: "get_user ''nick!~7f000001@gateway/web/freenode/x-abc'' True = Inr ''7f000001''"
    by code_simp
  have v1: "get_user ''nick!~7f000001@gateway/web/freenode/x-abc'' False = Inr ''~7f000001''"
    by code_simp
  have c1: "\<not> is_hostname (get_host ''nick!~7f000001@gateway/web/freenode/x-abc'')
      \<and> is_ip example_inet_aton (hex_to_ip ''7f000001'')
      \<and> \<not> str_contains (hex_to_ip ''7f000001'')
            (get_host ''nick!~7f000001@gateway/web/freenode/x-abc'')"
    by code_simp
  have r1: "make_banmask example_inet_aton [''webchat'']
      ''nick!~7f000001@gateway/web/freenode/x-abc'' = Inr ''*!~7f000001@*''"
    using C8_webchat_banmask [OF w e u1, of example_inet_aton] v1 c1 by auto
  have u2: "get_user ''nick!~user@host.example'' True = Inr ''user''"
    by code_simp
  have h2: "get_host ''nick!~user@host.example'' = ''host.example''"
    by code_simp
  have r2: "make_banmask example_inet_aton [''webchat''] ''nick!~user@host.example''
      = Inr ''*!*@host.example''"
    using C8_webchat_banmask [OF w e u2, of example_inet_aton] h2 by auto
  from r1 r2 show ?thesis by blast
qed


section \<open>The command queue: overflow\<close>

lemma queue_appends:
  "queue cmd type wait w = Inr w' \<Longrightarrow>
   \<exists>pack. w' = w\<lparr>q_wait := q_wait w + wait, q_commands := q_commands w @ [pack]\<rparr>"
  by (auto simp add: queue_def split: sum.splits)

text \<open>
  Claim C2, as stated, has the queue cleared by the enqueue of the 21st step. \<open>queue\<close>
  only appends: after 21 steps are queued on the empty queue all 21 are there and nothing
  was reported. The limit is tested by \<open>run\<close>.
\<close>

theorem C2_enqueue_does_not_clear_counterexample:
  "\<not> isl (queue_many 21 example_world)
   \<and> length (q_commands (projr (queue_many 21 example_world))) = 21
   \<and> w_printed (projr (queue_many 21 example_world)) = []"
  by code_simp

text \<open>
  Claim C2, amended. \<open>queue\<close> appends one step and reports nothing, whatever the length
  of the queue. \<open>run\<close>, called with more than 20 steps queued, reports the overflow once,
  clears the whole queue and resets the wait; no step is executed: nothing is sent, no
  hook is added or removed and no setting is changed.
\<close>

theorem C2_overflow_on_run:
  "(queue cmd type wait w = Inr w' \<longrightarrow>
      length (q_commands w') = Suc (length (q_commands w))
      \<and> butlast (q_commands w') = q_commands w \<and> w_printed w' = w_printed w)
   \<and> (length (q_commands w) > 20 \<longrightarrow>
      run w = w\<lparr>q_commands := [], q_wait := 0,
                 w_printed := w_printed w @ [Error ''Limit of 20 commands in queue reached, aborting.'']\<rparr>
      \<and> q_commands (run w) = []
      \<and> w_sent (run w) = w_sent w \<and> w_hooks (run w) = w_hooks w
      \<and> w_config (run w) = w_config w)"
proof -
  have a: "queue cmd type wait w = Inr w' \<longrightarrow>
      length (q_commands w') = Suc (length (q_commands w))
      \<and> butlast (q_commands w') = q_commands w \<and> w_printed w' = w_printed w"
    using queue_appends [of cmd type wait w w'] by auto
  have b: "length (q_commands w) > 20 \<longrightarrow>
      run w = w\<lparr>q_commands := [], q_wait := 0,
                 w_printed := w_printed w @ [Error ''Limit of 20 commands in queue reached, aborting.'']\<rparr>"
    by (simp add: run_def clear_def error_def)
  from a b show ?thesis by auto
qed

text \<open>
  The instance of claim C2 on the empty queue: one step queued is there and nothing is
  reported; 21 steps queued and then run are all discarded, with one report and nothing
  sent.
\<close>

theorem C2_overflow_on_run_witness:
  "(\<exists>w1. queue ''/kick troll bye'' (TNormal ''0x2'') 1 example_world = Inr w1
      \<and> length (q_commands w1) = 1 \<and> w_printed w1 = [])
   \<and> (\<exists>w. queue_many 21 example_world = Inr w
      \<and> q_commands (run w) = [] \<and> w_sent (run w) = []
      \<and> w_printed (run w) = [Error ''Limit of 20 commands in queue reached, aborting.''])"
proof -
  obtain w1 where w1: "queue ''/kick troll bye'' (TNormal ''0x2'') 1 example_world = Inr w1"
    by (simp add: queue_def)
  have e: "length (q_commands example_world) = 0" "w_printed example_world = []"
    by (simp_all add: example_world_def)
  have first: "length (q_commands w1) = 1 \<and> w_printed w1 = []"
    using C2_overflow_on_run [of "''/kick troll bye''" "TNormal ''0x2''" 1 example_world w1] w1 e
    by simp
  obtain w where w: "queue_many 21 example_world = Inr w"
    and l: "length (q_commands w) = 21" and s: "w_sent w = []" and p: "w_printed w = []"
  proof -
    have "case queue_many 21 example_world of
        Inl e \<Rightarrow> False
      | Inr w \<Rightarrow> length (q_commands w) = 21 \<and> w_sent w = [] \<and> w_printed w = []"
      by code_simp
    then show ?thesis
      using that by (auto split: sum.splits)
  qed
  have "length (q_commands w) > 20" using l by simp
  with C2_overflow_on_run [of "''x''" "TNormal ''b''" 1 w w] s p
  have "q_commands (run w) = [] \<and> w_sent (run w) = []
      \<and> w_printed (run w) = [Error ''Limit of 20 commands in queue reached, aborting.'']"
    by simp
  with w w1 first show ?thesis by blast
qed


section \<open>The command queue: waiting for op\<close>

lemma WaitForOp_call_result:
  assumes "w_config w ''debug'' \<noteq> ''2''"
  shows "WaitForOp_call cmd buffer wait server channel nick w =
     (False,
      w\<lparr>w_hooks :=
           filter (\<lambda>e. Some (fst e) \<noteq> hook_timeout w \<and> Some (fst e) \<noteq> hook_signal w) (w_hooks w)
           @ [(w_next w, SignalHook (server @ '',irc_in2_MODE'') ''queue_continue_cb''
                           (''MODE '' @ channel @ '' +o '' @ nick)),
              (Suc (w_next w), TimerHook 60000 0 1 ''queue_timeout_cb'' (server @ ''.'' @ channel))],
         w_next := Suc (Suc (w_next w)),
         hook_signal := Some (w_next w),
         hook_timeout := Some (Suc (w_next w)),
         w_sent := w_sent w @ [(buffer, if wait \<noteq> 0 then ''/wait '' @ str_of_int wait @ '' '' @ cmd else cmd)]\<rparr>)"
proof -
  have f: "\<And>a b (xs :: (nat \<times> hook_spec) list).
      filter (\<lambda>e. fst e \<noteq> b) (filter (\<lambda>e. fst e \<noteq> a) xs)
      = filter (\<lambda>e. Some (fst e) \<noteq> Some a \<and> Some (fst e) \<noteq> Some b) xs"
    by (auto intro: filter_cong)
  show ?thesis
    using assms
    by (cases "hook_timeout w"; cases "hook_signal w")
      (simp_all add: WaitForOp_call_def Message_call_def command_def hook_def unhook_def Let_def f)
qed

lemma run_WaitForOp:
  assumes "q_commands w = WaitForOp cmd buffer wait server channel nick # rest"
    and "length (q_commands w) \<le> 20"
    and "w_config w ''debug'' \<noteq> ''2''"
  shows "run w =
      w\<lparr>q_commands := rest,
         w_hooks :=
           filter (\<lambda>e. Some (fst e) \<noteq> hook_timeout w \<and> Some (fst e) \<noteq> hook_signal w) (w_hooks w)
           @ [(w_next w, SignalHook (server @ '',irc_in2_MODE'') ''queue_continue_cb''
                           (''MODE '' @ channel @ '' +o '' @ nick)),
              (Suc (w_next w), TimerHook 60000 0 1 ''queue_timeout_cb'' (server @ ''.'' @ channel))],
         w_next := Suc (Suc (w_next w)),
         hook_signal := Some (w_next w),
         hook_timeout := Some (Suc (w_next w)),
         w_sent := w_sent w @ [(buffer, if wait \<noteq> 0 then ''/wait '' @ str_of_int wait @ '' '' @ cmd else cmd)]\<rparr>"
proof -
  have d: "w_config (w\<lparr>q_commands := rest\<rparr>) ''debug'' \<noteq> ''2''"
    using assms(3) by simp
  have "run w = run_loop w"
    using assms(2) by (simp add: run_def)
  also have "\<dots> = snd (WaitForOp_call cmd buffer wait server channel nick (w\<lparr>q_commands := rest\<rparr>))"
    using assms(1) WaitForOp_call_result [OF d, of cmd buffer wait server channel nick]
    by (subst run_loop.simps) simp
  finally show ?thesis
    using WaitForOp_call_result [OF d, of cmd buffer wait server channel nick] by simp
qed


lemma find_fresh_timer:
  assumes "list_all (\<lambda>e. fst e < n) xs"
  shows "List.find (\<lambda>e. fst e = Suc n) (filter P xs @ [(n, s), (Suc n, t)]) = Some (Suc n, t)"
proof -
  have "List.find (\<lambda>e. fst e = Suc n) (filter P xs) = None"
    using assms by (auto simp add: find_None_iff list_all_iff)
  then show ?thesis
    by (simp add: find_app)
qed

text \<open>
  Claim C1, as stated, fails under the \<open>debug\<close> setting \<open>2\<close>: \<open>WaitForOp.__call__\<close>
  then returns \<open>True\<close>, \<open>run\<close> goes on through the remaining steps and leaves the queue
  empty, and no command is sent.
\<close>

theorem C1_debug_mode_counterexample:
  "w_config example_debug ''debug'' = ''2''
   \<and> q_commands example_debug =
       [WaitForOp ''/msg chanserv op #chan me'' ''0x2'' 0 ''freenode'' ''#chan'' ''me'',
        AddChannel ''freenode'' ''#chan'',
        Normal ''/kick troll bye'' ''0x2'' 1]
   \<and> q_commands (run example_debug) = []
   \<and> w_sent (run example_debug) = []"
  by code_simp

text \<open>
  Claim C1, amended: unless the \<open>debug\<close> setting is \<open>2\<close>. Let \<open>run\<close> start with at most
  20 steps queued, a \<open>WaitForOp\<close> step in front, and let \<open>n\<close> be WeeChat's next handle.
  Then \<open>run\<close> sends the command of the step and stops with all the other steps still
  queued, the signal hook \<open>n\<close> for \<open>MODE channel +o nick\<close> on the server and the timer
  \<open>n + 1\<close> of 60000 ms and one call active. A message whose text after the first space
  is that \<open>MODE\<close> line makes \<open>queue_continue_cb\<close> remove both hooks and call \<open>run\<close> on
  the remaining steps, after which the timer cannot come due; any other message leaves
  the state as it is or fails on the missing space, and does not resume. When the timer
  comes due, the signal hook and the timer are removed, the timeout is reported once,
  nothing more is sent, the queue is empty, and the timer cannot come due again.
\<close>

theorem C1_wait_for_op:
  assumes "q_commands w = WaitForOp cmd buffer wait server channel nick # rest"
    and "length (q_commands w) \<le> 20"
    and "w_config w ''debug'' \<noteq> ''2''"
    and "handles_fresh w"
  shows "q_commands (run w) = rest
     \<and> w_sent (run w)
         = w_sent w @ [(buffer, if wait \<noteq> 0 then ''/wait '' @ str_of_int wait @ '' '' @ cmd else cmd)]
     \<and> hook_signal (run w) = Some (w_next w)
     \<and> hook_timeout (run w) = Some (Suc (w_next w))
     \<and> (w_next w, SignalHook (server @ '',irc_in2_MODE'') ''queue_continue_cb''
                      (''MODE '' @ channel @ '' +o '' @ nick)) \<in> set (w_hooks (run w))
     \<and> (Suc (w_next w), TimerHook 60000 0 1 ''queue_timeout_cb'' (server @ ''.'' @ channel))
           \<in> set (w_hooks (run w))
     \<and> (\<forall>sg sd. CHR '' '' \<in> set sd
            \<and> strip (slice_from sd (str_find sd CHR '' '' + 1)) = ''MODE '' @ channel @ '' +o '' @ nick
          \<longrightarrow> (\<exists>w'. queue_continue_cb (''MODE '' @ channel @ '' +o '' @ nick) sg sd (run w) = Inr (run w')
                 \<and> q_commands w' = rest \<and> w_sent w' = w_sent (run w)
                 \<and> w_next w \<notin> fst ` set (w_hooks w') \<and> Suc (w_next w) \<notin> fst ` set (w_hooks w')
                 \<and> hook_signal w' = None \<and> hook_timeout w' = None
                 \<and> weechat_timer_due (Suc (w_next w)) w' = Inr w'))
     \<and> (\<forall>sg sd. strip (slice_from sd (str_find sd CHR '' '' + 1)) \<noteq> ''MODE '' @ channel @ '' +o '' @ nick
          \<longrightarrow> queue_continue_cb (''MODE '' @ channel @ '' +o '' @ nick) sg sd (run w) = Inr (run w)
              \<or> queue_continue_cb (''MODE '' @ channel @ '' +o '' @ nick) sg sd (run w) = Inl IndexError)
     \<and> (\<exists>w3. weechat_timer_due (Suc (w_next w)) (run w) = Inr w3
            \<and> q_commands w3 = [] \<and> q_wait w3 = 0
            \<and> w_printed w3 = w_printed w @ [Error (''Couldn't get op in '' @ [CHR 0x27] @ server @ ''.''
                                     @ channel @ [CHR 0x27] @ '', purging command queue...'')]
            \<and> w_sent w3 = w_sent (run w)
            \<and> w_next w \<notin> fst ` set (w_hooks w3) \<and> Suc (w_next w) \<notin> fst ` set (w_hooks w3)
            \<and> hook_signal w3 = None \<and> hook_timeout w3 = None
            \<and> weechat_timer_due (Suc (w_next w)) w3 = Inr w3)"
proof -
  let ?n = "w_next w"
  let ?data = "''MODE '' @ channel @ '' +o '' @ nick"
  let ?S = "SignalHook (server @ '',irc_in2_MODE'') ''queue_continue_cb'' ?data"
  let ?T = "TimerHook 60000 0 1 ''queue_timeout_cb'' (server @ ''.'' @ channel)"
  let ?base = "filter (\<lambda>e. Some (fst e) \<noteq> hook_timeout w \<and> Some (fst e) \<noteq> hook_signal w) (w_hooks w)"
  let ?c = "if wait \<noteq> 0 then ''/wait '' @ str_of_int wait @ '' '' @ cmd else cmd"
  note R = run_WaitForOp [OF assms(1) assms(2) assms(3)]
  have cmds: "q_commands (run w) = rest" by (simp add: R)
  have sent: "w_sent (run w) = w_sent w @ [(buffer, ?c)]" by (simp add: R)
  have hs: "hook_signal (run w) = Some ?n" by (simp add: R)
  have ht: "hook_timeout (run w) = Some (Suc ?n)" by (simp add: R)
  have hooks: "w_hooks (run w) = ?base @ [(?n, ?S), (Suc ?n, ?T)]" by (simp add: R)
  have printed: "w_printed (run w) = w_printed w" by (simp add: R)
  have inS: "(?n, ?S) \<in> set (w_hooks (run w))" by (simp add: hooks)
  have inT: "(Suc ?n, ?T) \<in> set (w_hooks (run w))" by (simp add: hooks)
  let ?w' = "(unhook (Suc ?n) (unhook ?n (run w)))\<lparr>hook_signal := None, hook_timeout := None\<rparr>"
  have w'_hooks: "fst ` set (w_hooks ?w') \<subseteq> - {?n, Suc ?n}"
    by (auto simp add: unhook_def)
  have w'_due: "weechat_timer_due (Suc ?n) ?w' = Inr ?w'"
  proof -
    have "List.find (\<lambda>e. fst e = Suc ?n) (w_hooks ?w') = None"
      by (auto simp add: find_None_iff unhook_def)
    then show ?thesis by (simp add: weechat_timer_due_def)
  qed
  have match: "\<forall>sg sd. CHR '' '' \<in> set sd
            \<and> strip (slice_from sd (str_find sd CHR '' '' + 1)) = ?data
          \<longrightarrow> (\<exists>w'. queue_continue_cb ?data sg sd (run w) = Inr (run w')
                 \<and> q_commands w' = rest \<and> w_sent w' = w_sent (run w)
                 \<and> ?n \<notin> fst ` set (w_hooks w') \<and> Suc ?n \<notin> fst ` set (w_hooks w')
                 \<and> hook_signal w' = None \<and> hook_timeout w' = None
                 \<and> weechat_timer_due (Suc ?n) w' = Inr w')"
  proof (intro allI impI)
    fix sg sd
    assume m: "CHR '' '' \<in> set sd \<and> strip (slice_from sd (str_find sd CHR '' '' + 1)) = ?data"
    have "queue_continue_cb ?data sg sd (run w) = Inr (run ?w')"
      using m hs ht by (simp add: queue_continue_cb_def unhook_var_def unhook_def)
    moreover have "q_commands ?w' = rest" by (simp add: unhook_def cmds)
    moreover have "w_sent ?w' = w_sent (run w)" by (simp add: unhook_def)
    moreover have "?n \<notin> fst ` set (w_hooks ?w')" "Suc ?n \<notin> fst ` set (w_hooks ?w')"
      using w'_hooks by auto
    moreover have "hook_signal ?w' = None" "hook_timeout ?w' = None" by simp_all
    ultimately show "\<exists>w'. queue_continue_cb ?data sg sd (run w) = Inr (run w')
                 \<and> q_commands w' = rest \<and> w_sent w' = w_sent (run w)
                 \<and> ?n \<notin> fst ` set (w_hooks w') \<and> Suc ?n \<notin> fst ` set (w_hooks w')
                 \<and> hook_signal w' = None \<and> hook_timeout w' = None
                 \<and> weechat_timer_due (Suc ?n) w' = Inr w'"
      using w'_due by blast
  qed
  have nomatch: "\<forall>sg sd. strip (slice_from sd (str_find sd CHR '' '' + 1)) \<noteq> ?data
          \<longrightarrow> queue_continue_cb ?data sg sd (run w) = Inr (run w)
              \<or> queue_continue_cb ?data sg sd (run w) = Inl IndexError"
    by (simp add: queue_continue_cb_def)
  let ?msg = "''Couldn't get op in '' @ [CHR 0x27] @ server @ ''.'' @ channel @ [CHR 0x27]
                 @ '', purging command queue...''"
  let ?w3 = "unhook (Suc ?n)
      (clear ((unhook ?n (error ?msg (run w)))\<lparr>hook_signal := None, hook_timeout := None\<rparr>))"
  have fresh: "list_all (\<lambda>e. fst e < ?n) (w_hooks w)"
    using assms(4) by (simp add: handles_fresh_def)
  have found: "List.find (\<lambda>e. fst e = Suc ?n) (w_hooks (run w)) = Some (Suc ?n, ?T)"
    unfolding hooks using fresh by (rule find_fresh_timer)
  have cb: "queue_timeout_cb (server @ ''.'' @ channel) (run w)
      = Inr (clear ((unhook ?n (error ?msg (run w)))\<lparr>hook_signal := None, hook_timeout := None\<rparr>))"
    using hs by (simp add: queue_timeout_cb_def Let_def error_def unhook_var_def)
  have due: "weechat_timer_due (Suc ?n) (run w) = Inr ?w3"
    using found cb by (simp add: weechat_timer_due_def)
  have w3_none: "List.find (\<lambda>e. fst e = Suc ?n) (w_hooks ?w3) = None"
    by (auto simp add: find_None_iff unhook_def clear_def error_def)
  have timeout: "\<exists>w3. weechat_timer_due (Suc ?n) (run w) = Inr w3
            \<and> q_commands w3 = [] \<and> q_wait w3 = 0
            \<and> w_printed w3 = w_printed w @ [Error ?msg]
            \<and> w_sent w3 = w_sent (run w)
            \<and> ?n \<notin> fst ` set (w_hooks w3) \<and> Suc ?n \<notin> fst ` set (w_hooks w3)
            \<and> hook_signal w3 = None \<and> hook_timeout w3 = None
            \<and> weechat_timer_due (Suc ?n) w3 = Inr w3"
  proof -
    have "q_commands ?w3 = []" "q_wait ?w3 = 0"
      by (simp_all add: unhook_def clear_def)
    moreover have "w_printed ?w3 = w_printed w @ [Error ?msg]"
      by (simp add: unhook_def clear_def error_def printed)
    moreover have "w_sent ?w3 = w_sent (run w)"
      by (simp add: unhook_def clear_def error_def)
    moreover have "?n \<notin> fst ` set (w_hooks ?w3)" "Suc ?n \<notin> fst ` set (w_hooks ?w3)"
      by (auto simp add: unhook_def clear_def error_def)
    moreover have "hook_signal ?w3 = None" "hook_timeout ?w3 = None"
      by (simp_all add: unhook_def clear_def)
    moreover have "weechat_timer_due (Suc ?n) ?w3 = Inr ?w3"
      using w3_none by (simp add: weechat_timer_due_def)
    ultimately show ?thesis using due by blast
  qed
  from cmds sent hs ht inS inT match nomatch timeout show ?thesis by blast
qed


text \<open>
  The instance of claim C1 on the queue of a privileged kick: \<open>run\<close> stops behind the
  op request; the \<open>MODE\<close> message from the services resumes with the two remaining
  steps; the timer, handle 2, coming due instead empties the queue with one report.
\<close>

theorem C1_wait_for_op_witness:
  "q_commands (run example_queued)
     = [AddChannel ''freenode'' ''#chan'', Normal ''/kick troll bye'' ''0x2'' 1]
   \<and> w_sent (run example_queued) = [(''0x2'', ''/msg chanserv op #chan me'')]
   \<and> (\<exists>w'. queue_continue_cb ''MODE #chan +o me'' ''freenode,irc_in2_MODE''
              '':ChanServ!s@services. MODE #chan +o me'' (run example_queued) = Inr (run w')
          \<and> q_commands w' = [AddChannel ''freenode'' ''#chan'', Normal ''/kick troll bye'' ''0x2'' 1])
   \<and> (\<exists>w3. weechat_timer_due 2 (run example_queued) = Inr w3
          \<and> q_commands w3 = []
          \<and> w_printed w3 = [Error (''Couldn't get op in '' @ [CHR 0x27] @ ''freenode.#chan''
                                   @ [CHR 0x27] @ '', purging command queue...'')])"
proof -
  have a1: "q_commands example_queued =
      WaitForOp ''/msg chanserv op #chan me'' ''0x2'' 0 ''freenode'' ''#chan'' ''me''
      # [AddChannel ''freenode'' ''#chan'', Normal ''/kick troll bye'' ''0x2'' 1]"
    by (simp add: example_queued_def)
  have a2: "length (q_commands example_queued) \<le> 20"
    by (simp add: example_queued_def)
  have a3: "w_config example_queued ''debug'' \<noteq> ''2''"
    by (simp add: example_queued_def example_world_def)
  have a4: "handles_fresh example_queued"
    by (simp add: handles_fresh_def example_queued_def example_world_def)
  have n: "w_next example_queued = 1" "w_sent example_queued = []" "w_printed example_queued = []"
    by (simp_all add: example_queued_def example_world_def)
  have m: "CHR '' '' \<in> set '':ChanServ!s@services. MODE #chan +o me''
      \<and> strip (slice_from '':ChanServ!s@services. MODE #chan +o me''
                 (str_find '':ChanServ!s@services. MODE #chan +o me'' CHR '' '' + 1))
          = ''MODE '' @ ''#chan'' @ '' +o '' @ ''me''"
    by code_simp
  note c = C1_wait_for_op [OF a1 a2 a3 a4]
  have p1: "q_commands (run example_queued)
     = [AddChannel ''freenode'' ''#chan'', Normal ''/kick troll bye'' ''0x2'' 1]"
    using c by blast
  have p2: "w_sent (run example_queued) = [(''0x2'', ''/msg chanserv op #chan me'')]"
    using c n by simp
  have p3: "\<exists>w'. queue_continue_cb ''MODE #chan +o me'' ''freenode,irc_in2_MODE''
              '':ChanServ!s@services. MODE #chan +o me'' (run example_queued) = Inr (run w')
          \<and> q_commands w' = [AddChannel ''freenode'' ''#chan'', Normal ''/kick troll bye'' ''0x2'' 1]"
  proof -
    from c have "\<forall>sg sd. CHR '' '' \<in> set sd
            \<and> strip (slice_from sd (str_find sd CHR '' '' + 1)) = ''MODE '' @ ''#chan'' @ '' +o '' @ ''me''
          \<longrightarrow> (\<exists>w'. queue_continue_cb (''MODE '' @ ''#chan'' @ '' +o '' @ ''me'') sg sd (run example_queued) = Inr (run w')
                 \<and> q_commands w' = [AddChannel ''freenode'' ''#chan'', Normal ''/kick troll bye'' ''0x2'' 1])"
      by blast
    with m show ?thesis by simp
  qed
  have p4: "\<exists>w3. weechat_timer_due 2 (run example_queued) = Inr w3
          \<and> q_commands w3 = []
          \<and> w_printed w3 = [Error (''Couldn't get op in '' @ [CHR 0x27] @ ''freenode.#chan''
                                   @ [CHR 0x27] @ '', purging command queue...'')]"
  proof -
    from c obtain w3 where "weechat_timer_due (Suc (w_next example_queued)) (run example_queued) = Inr w3"
      "q_commands w3 = []"
      "w_printed w3 = w_printed example_queued @ [Error (''Couldn't get op in '' @ [CHR 0x27] @ ''freenode'' @ ''.''
                                     @ ''#chan'' @ [CHR 0x27] @ '', purging command queue...'')]"
      by blast
    then show ?thesis using n by (auto simp add: numeral_2_eq_2)
  qed
  from p1 p2 p3 p4 show ?thesis by blast
qed


section \<open>List entries and the head of the fetch queue\<close>

lemma MaskList_setitem_stores:
  assumes "MaskList_setitem now ml m d = Inr ml'"
  shows "\<exists>ob. CaseInsensibleDict_getitem lowered (ml_items ml') m = Inr ob"
proof (cases "CaseInsensibleDict_contains lowered (ml_items ml) m")
  case True
  then obtain old where old: "CaseInsensibleDict_getitem lowered (ml_items ml) m = Inr old"
    using contains_getitem [of lowered "ml_items ml" m] by blast
  from assms have "ml' = ml\<lparr>ml_items :=
      CaseInsensibleDict_setitem lowered (ml_items ml) m (update_attrs old d)\<rparr>"
    by (simp add: MaskList_setitem_existing [OF old])
  then show ?thesis by (simp add: getitem_setitem_same)
next
  case False
  with assms obtain ob where "ml' = ml\<lparr>ml_items :=
      CaseInsensibleDict_setitem lowered (ml_items ml) m ob\<rparr>"
    by (auto simp add: MaskList_setitem_def split: sum.splits)
  then show ?thesis by (simp add: getitem_setitem_same)
qed

lemma MaskList_setitem_succeeds:
  assumes "\<not> truthy (kwarg d Date) \<or> (\<exists>n. py_int (kwarg d Date) = Inr n)"
  shows "\<exists>ml'. MaskList_setitem now ml m d = Inr ml'"
proof (cases "CaseInsensibleDict_contains lowered (ml_items ml) m")
  case True
  then obtain old where old: "CaseInsensibleDict_getitem lowered (ml_items ml) m = Inr old"
    using contains_getitem [of lowered "ml_items ml" m] by blast
  then show ?thesis by (simp add: MaskList_setitem_existing)
next
  case False
  have "\<exists>ob. MaskObject_init now m d = Inr ob"
  proof (cases "truthy (kwarg d Date)")
    case True
    with assms obtain n where "py_int (kwarg d Date) = Inr n" by blast
    with True show ?thesis by (simp add: MaskObject_init_def)
  next
    case False
    then show ?thesis by (simp add: MaskObject_init_def)
  qed
  then obtain ob where "MaskObject_init now m d = Inr ob" by blast
  with False show ?thesis by (simp add: MaskList_setitem_new)
qed

lemma MaskCache_add_stores:
  assumes "MaskCache_add now self server channel m d = Inr self'"
  shows "\<exists>ml ob. CaseInsensibleDict_getitem lowered_pair (mc_items self') (server, channel) = Inr ml
     \<and> CaseInsensibleDict_getitem lowered (ml_items ml) m = Inr ob"
proof -
  from assms obtain self1 ml0 ml' where
    set: "MaskList_setitem now ml0 m d = Inr ml'"
    and self': "self' = self1\<lparr>mc_items :=
        CaseInsensibleDict_setitem lowered_pair (mc_items self1) (server, channel) ml'\<rparr>"
    by (auto simp add: MaskCache_add_def Let_def split: sum.splits)
  from self' have "CaseInsensibleDict_getitem lowered_pair (mc_items self') (server, channel) = Inr ml'"
    by (simp add: getitem_setitem_same)
  with MaskList_setitem_stores [OF set] show ?thesis by blast
qed

lemma MaskCache_add_succeeds:
  assumes "\<not> truthy (kwarg d Date) \<or> (\<exists>n. py_int (kwarg d Date) = Inr n)"
  shows "\<exists>self'. MaskCache_add now self server channel m d = Inr self'"
proof -
  let ?self1 = "if \<not> CaseInsensibleDict_contains lowered_pair (mc_items self) (server, channel)
                then initList self server channel else self"
  have "CaseInsensibleDict_contains lowered_pair (mc_items ?self1) (server, channel)"
    by (simp add: initList_def contains_setitem)
  then obtain ml where ml: "CaseInsensibleDict_getitem lowered_pair (mc_items ?self1) (server, channel) = Inr ml"
    using contains_getitem [of lowered_pair "mc_items ?self1" "(server, channel)"] by blast
  obtain ml' where "MaskList_setitem now ml m d = Inr ml'"
    using MaskList_setitem_succeeds [OF assms] by blast
  with ml show ?thesis
    by (simp add: MaskCache_add_def Let_def)
qed

text \<open>
  Claim C4, as stated, has the record added to the list of the head key when the event
  does not match the head. The callback adds only under the test that server and
  channel are those of the head; on a mismatch it prints the error and adds nothing:
  here the head is \<open>(freenode, #chan, b)\<close>, the entry names \<open>#other\<close>, and afterwards
  neither cache holds a list.
\<close>

theorem C4_mismatch_adds_nothing_counterexample:
  "hook_queue example_fetching = [(''freenode'', ''#chan'', ''b'')]
   \<and> \<not> isl (masklist_add_cb 1002 ''freenode''
             '':irc.example 367 me #other *!*@bad.example op!o@h 1234'' example_fetching)
   \<and> mc_items (banlist (projr (masklist_add_cb 1002 ''freenode''
             '':irc.example 367 me #other *!*@bad.example op!o@h 1234'' example_fetching))) = []
   \<and> mc_items (mutelist (projr (masklist_add_cb 1002 ''freenode''
             '':irc.example 367 me #other *!*@bad.example op!o@h 1234'' example_fetching))) = []
   \<and> w_printed (projr (masklist_add_cb 1002 ''freenode''
             '':irc.example 367 me #other *!*@bad.example op!o@h 1234'' example_fetching))
       = [Say ''Fetching #chan masks (+b channelmode).'',
          Error ''Error: got mask from unexpected server/channel'']"
  by code_simp

text \<open>
  Claim C4, amended. For a list-entry message whose last four words are channel, mask,
  operator and date, and a fetch queue with head \<open>(serv, chan, mode)\<close>: when server and
  channel differ from the head's, the mismatch is reported and the record is dropped,
  both caches staying as they are; when they are the head's, a call that returns has
  stored the mask in the head key's list of the cache of that mode and reports nothing,
  and the call does return when the date reads as an integer.
\<close>

theorem C4_list_entry_against_head:
  assumes "hook_queue w = (serv, chan, mode) # rest"
    and "drop (length (split_ws string) - 4) (split_ws string) = [channel, banmask, op, date]"
  shows "((serv, chan) \<noteq> (server, channel) \<longrightarrow>
        masklist_add_cb now server string w
          = Inr (w\<lparr>w_printed := w_printed w @ [Error ''Error: got mask from unexpected server/channel'']\<rparr>))
     \<and> ((serv, chan) = (server, channel) \<longrightarrow>
        (\<forall>w'. masklist_add_cb now server string w = Inr w' \<longrightarrow>
           (\<exists>c ml ob. maskModes mode = Inr c
              \<and> CaseInsensibleDict_getitem lowered_pair (mc_items (the_cache c w')) (serv, chan) = Inr ml
              \<and> CaseInsensibleDict_getitem lowered (ml_items ml) banmask = Inr ob
              \<and> w_printed w' = w_printed w)))
     \<and> ((serv, chan) = (server, channel) \<and> (\<exists>c. maskModes mode = Inr c)
          \<and> (\<exists>n. py_int_str 10 date = Inr n) \<longrightarrow>
        (\<exists>w'. masklist_add_cb now server string w = Inr w'))"
proof -
  let ?d = "[Operator \<mapsto> PStr op, Date \<mapsto> PStr date]"
  have len: "\<not> length (split_ws string) < 4"
  proof
    assume "length (split_ws string) < 4"
    then have "length (drop (length (split_ws string) - 4) (split_ws string)) < 4" by simp
    with assms(2) show False by simp
  qed
  have parts: "[channel, banmask, op, date] ! 0 = channel" "[channel, banmask, op, date] ! 1 = banmask"
    "[channel, banmask, op, date] ! 2 = op" "[channel, banmask, op, date] ! 3 = date"
    by (simp_all add: nth_Cons')
  have unfold: "masklist_add_cb now server string w =
      (if (serv, chan) = (server, channel) then
         (case maskModes mode of
            Inl e \<Rightarrow> Inl e
          | Inr c \<Rightarrow>
              (case MaskCache_add now (the_cache c w) server channel banmask ?d of
                 Inl e \<Rightarrow> Inl e
               | Inr cache' \<Rightarrow> Inr (put_cache c cache' w)))
       else Inr (error ''Error: got mask from unexpected server/channel'' w))"
    using len assms(1) unfolding masklist_add_cb_def Let_def assms(2) parts
    by simp
  have mismatch: "(serv, chan) \<noteq> (server, channel) \<longrightarrow>
        masklist_add_cb now server string w
          = Inr (w\<lparr>w_printed := w_printed w @ [Error ''Error: got mask from unexpected server/channel'']\<rparr>)"
    unfolding unfold by (simp add: error_def)
  have match: "(serv, chan) = (server, channel) \<longrightarrow>
        (\<forall>w'. masklist_add_cb now server string w = Inr w' \<longrightarrow>
           (\<exists>c ml ob. maskModes mode = Inr c
              \<and> CaseInsensibleDict_getitem lowered_pair (mc_items (the_cache c w')) (serv, chan) = Inr ml
              \<and> CaseInsensibleDict_getitem lowered (ml_items ml) banmask = Inr ob
              \<and> w_printed w' = w_printed w))"
  proof (intro impI allI)
    fix w'
    assume eq: "(serv, chan) = (server, channel)"
      and r: "masklist_add_cb now server string w = Inr w'"
    from r eq obtain c cache' where c: "maskModes mode = Inr c"
      and add: "MaskCache_add now (the_cache c w) server channel banmask ?d = Inr cache'"
      and w': "w' = put_cache c cache' w"
      unfolding unfold by (auto split: sum.splits)
    from MaskCache_add_stores [OF add] obtain ml ob where
      "CaseInsensibleDict_getitem lowered_pair (mc_items cache') (server, channel) = Inr ml"
      "CaseInsensibleDict_getitem lowered (ml_items ml) banmask = Inr ob"
      by blast
    moreover have "the_cache c w' = cache'" "w_printed w' = w_printed w"
      using w' by (cases c; simp)+
    ultimately show "\<exists>c ml ob. maskModes mode = Inr c
        \<and> CaseInsensibleDict_getitem lowered_pair (mc_items (the_cache c w')) (serv, chan) = Inr ml
        \<and> CaseInsensibleDict_getitem lowered (ml_items ml) banmask = Inr ob
        \<and> w_printed w' = w_printed w"
      using c eq by auto
  qed
  have returns: "(serv, chan) = (server, channel) \<and> (\<exists>c. maskModes mode = Inr c)
          \<and> (\<exists>n. py_int_str 10 date = Inr n) \<longrightarrow>
        (\<exists>w'. masklist_add_cb now server string w = Inr w')"
  proof (intro impI)
    assume h: "(serv, chan) = (server, channel) \<and> (\<exists>c. maskModes mode = Inr c)
          \<and> (\<exists>n. py_int_str 10 date = Inr n)"
    then obtain c where c: "maskModes mode = Inr c" by blast
    have "\<not> truthy (kwarg ?d Date) \<or> (\<exists>n. py_int (kwarg ?d Date) = Inr n)"
      using h by (simp add: kwarg_def)
    then obtain cache' where "MaskCache_add now (the_cache c w) server channel banmask ?d = Inr cache'"
      using MaskCache_add_succeeds by blast
    with h c show "\<exists>w'. masklist_add_cb now server string w = Inr w'"
      unfolding unfold by simp
  qed
  from mismatch match returns show ?thesis by blast
qed


text \<open>
  The instance of claim C4 while \<open>(freenode, #chan, b)\<close> is being fetched: an entry for
  \<open>#other\<close> is reported and dropped, an entry for \<open>#chan\<close> is stored in the ban list
  of \<open>#chan\<close>.
\<close>

theorem C4_list_entry_against_head_witness:
  "masklist_add_cb 1002 ''freenode'' '':irc.example 367 me #other *!*@bad.example op!o@h 1234''
       example_fetching
     = Inr (example_fetching\<lparr>w_printed := w_printed example_fetching
              @ [Error ''Error: got mask from unexpected server/channel'']\<rparr>)
   \<and> (\<exists>w' ml ob.
         masklist_add_cb 1002 ''freenode'' '':irc.example 367 me #chan *!*@bad.example op!o@h 1234''
           example_fetching = Inr w'
         \<and> CaseInsensibleDict_getitem lowered_pair (mc_items (banlist w')) (''freenode'', ''#chan'') = Inr ml
         \<and> CaseInsensibleDict_getitem lowered (ml_items ml) ''*!*@bad.example'' = Inr ob)"
proof -
  have q: "hook_queue example_fetching = (''freenode'', ''#chan'', ''b'') # []"
    by code_simp
  have s1: "drop (length (split_ws '':irc.example 367 me #other *!*@bad.example op!o@h 1234'') - 4)
        (split_ws '':irc.example 367 me #other *!*@bad.example op!o@h 1234'')
      = [''#other'', ''*!*@bad.example'', ''op!o@h'', ''1234'']"
    by code_simp
  have s2: "drop (length (split_ws '':irc.example 367 me #chan *!*@bad.example op!o@h 1234'') - 4)
        (split_ws '':irc.example 367 me #chan *!*@bad.example op!o@h 1234'')
      = [''#chan'', ''*!*@bad.example'', ''op!o@h'', ''1234'']"
    by code_simp
  have mode: "maskModes ''b'' = Inr Ban"
    by (simp add: maskModes_def)
  have date: "py_int_str 10 ''1234'' = Inr 1234"
    by code_simp
  have first: "masklist_add_cb 1002 ''freenode''
        '':irc.example 367 me #other *!*@bad.example op!o@h 1234'' example_fetching
     = Inr (example_fetching\<lparr>w_printed := w_printed example_fetching
              @ [Error ''Error: got mask from unexpected server/channel'']\<rparr>)"
    using C4_list_entry_against_head [OF q s1, of "''freenode''" 1002] by simp
  note c = C4_list_entry_against_head [OF q s2, of "''freenode''" 1002]
  from c mode date obtain w' where w': "masklist_add_cb 1002 ''freenode''
        '':irc.example 367 me #chan *!*@bad.example op!o@h 1234'' example_fetching = Inr w'"
    by blast
  with c obtain k ml ob where "maskModes ''b'' = Inr k"
    "CaseInsensibleDict_getitem lowered_pair (mc_items (the_cache k w')) (''freenode'', ''#chan'') = Inr ml"
    "CaseInsensibleDict_getitem lowered (ml_items ml) ''*!*@bad.example'' = Inr ob"
    by blast
  with mode have "CaseInsensibleDict_getitem lowered_pair (mc_items (banlist w')) (''freenode'', ''#chan'') = Inr ml"
    "CaseInsensibleDict_getitem lowered (ml_items ml) ''*!*@bad.example'' = Inr ob"
    by simp_all
  with w' first show ?thesis by blast
qed

section \<open>Fetching a list twice\<close>

lemma fetch_in_flight:
  "(server, channel, mc_mode (the_cache self w)) \<in> set (hook_queue w) \<Longrightarrow>
   fetch now self server channel w = w"
  by (simp add: fetch_def Let_def)

lemma fetch_twice_in_flight:
  "fetch t2 self server channel (fetch t1 self server channel w) = fetch t1 self server channel w
   \<or> fetch t1 self server channel w = w"
proof (cases "fetch t1 self server channel w = w")
  case True
  then show ?thesis by simp
next
  case False
  let ?w1 = "fetch t1 self server channel w"
  have m: "mc_mode (the_cache self ?w1) = mc_mode (the_cache self w)"
    by (cases self) (simp_all add: fetch_def Let_def hook_def say_def command_def)
  have "(server, channel, mc_mode (the_cache self w)) \<in> set (hook_queue ?w1)"
    using False by (simp add: fetch_def Let_def hook_def say_def command_def split: if_splits)
  with m show ?thesis by (simp add: fetch_in_flight)
qed

text \<open>
  No callback writes \<open>fetch_time\<close>: when every list has the value 0 that \<open>__init__\<close>
  gave it, this is still so after \<open>fetch\<close>, \<open>masklist_add_cb\<close> and \<open>masklist_end_cb\<close>,
  and the test \<open>now() - fetch_time < 60\<close> of \<open>fetch\<close> fails at every time from 60 on.
\<close>

lemma setitem_values:
  "list_all (\<lambda>e. P (snd e)) d \<Longrightarrow> P v \<Longrightarrow>
   list_all (\<lambda>e. P (snd e)) (CaseInsensibleDict_setitem key d k v)"
  by (auto simp add: CaseInsensibleDict_setitem_def list_all_iff)

lemma getitem_value:
  "CaseInsensibleDict_getitem key d k = Inr v \<Longrightarrow> list_all (\<lambda>e. P (snd e)) d \<Longrightarrow> P v"
  by (auto simp add: CaseInsensibleDict_getitem_def list_all_iff find_Some_iff
      split: option.splits)

lemma setitem_fetch_times:
  "list_all (\<lambda>e. fetch_time (snd e) = 0) d \<Longrightarrow> fetch_time v = 0 \<Longrightarrow>
   list_all (\<lambda>e. fetch_time (snd e) = 0) (CaseInsensibleDict_setitem key d k v)"
  using setitem_values [of "\<lambda>ml. fetch_time ml = 0" d v key k] by simp

lemma MaskList_setitem_fetch_time:
  "MaskList_setitem now ml m d = Inr ml' \<Longrightarrow> fetch_time ml' = fetch_time ml"
  by (auto simp add: MaskList_setitem_def split: if_splits sum.splits)

lemma MaskCache_add_fetch_times:
  assumes "MaskCache_add now self server channel m d = Inr self'"
    and "list_all (\<lambda>e. fetch_time (snd e) = 0) (mc_items self)"
  shows "list_all (\<lambda>e. fetch_time (snd e) = 0) (mc_items self')"
proof -
  let ?self1 = "if \<not> CaseInsensibleDict_contains lowered_pair (mc_items self) (server, channel)
                then initList self server channel else self"
  have one: "list_all (\<lambda>e. fetch_time (snd e) = 0) (mc_items ?self1)"
    using assms(2) by (simp add: initList_def MaskList_init_def setitem_fetch_times)
  from assms(1) obtain ml0 ml' where
    get: "CaseInsensibleDict_getitem lowered_pair (mc_items ?self1) (server, channel) = Inr ml0"
    and set: "MaskList_setitem now ml0 m d = Inr ml'"
    and self': "self' = ?self1\<lparr>mc_items :=
        CaseInsensibleDict_setitem lowered_pair (mc_items ?self1) (server, channel) ml'\<rparr>"
    by (auto simp add: MaskCache_add_def Let_def split: sum.splits)
  have "fetch_time ml0 = 0"
    using getitem_value [OF get, of "\<lambda>ml. fetch_time ml = 0"] one by simp
  then have "fetch_time ml' = 0"
    using MaskList_setitem_fetch_time [OF set] by simp
  with one self' show ?thesis
    using setitem_fetch_times [of "mc_items ?self1" ml' lowered_pair "(server, channel)"]
    by simp
qed

lemma fetch_times_zero_kept:
  assumes "fetch_times_zero w"
  shows "fetch_times_zero (fetch now self server channel w)"
    and "masklist_add_cb now server string w = Inr w' \<Longrightarrow> fetch_times_zero w'"
    and "masklist_end_cb w = Inr w'' \<Longrightarrow> fetch_times_zero w''"
proof -
  show "fetch_times_zero (fetch now self server channel w)"
    using assms
    by (simp add: fetch_times_zero_def fetch_def Let_def hook_def say_def command_def)
next
  assume r: "masklist_add_cb now server string w = Inr w'"
  then consider
    (added) c cache' sv ch m d where
      "MaskCache_add now (the_cache c w) sv ch m d = Inr cache'" "w' = put_cache c cache' w"
    | (dropped) "w' = error ''Error: got mask from unexpected server/channel'' w"
    unfolding masklist_add_cb_def Let_def
    by (fastforce split: if_splits list.splits sum.splits)
  then show "fetch_times_zero w'"
  proof cases
    case added
    have "list_all (\<lambda>e. fetch_time (snd e) = 0) (mc_items (the_cache c w))"
      using assms by (cases c) (simp_all add: fetch_times_zero_def)
    from MaskCache_add_fetch_times [OF added(1) this] added(2) assms show ?thesis
      by (cases c) (simp_all add: fetch_times_zero_def)
  next
    case dropped
    with assms show ?thesis by (simp add: fetch_times_zero_def error_def)
  qed
next
  assume r: "masklist_end_cb w = Inr w''"
  have unhooks: "\<And>hs v. banlist (fold unhook hs v) = banlist v \<and> mutelist (fold unhook hs v) = mutelist v"
  proof -
    fix hs v
    show "banlist (fold unhook hs v) = banlist v \<and> mutelist (fold unhook hs v) = mutelist v"
      by (induction hs arbitrary: v) (simp_all add: unhook_def)
  qed
  from r obtain head rest c where q: "hook_queue w = head # rest"
    and c: "maskModes (snd (snd head)) = Inr c"
    by (auto simp add: masklist_end_cb_def Let_def split: list.splits sum.splits)
  let ?w1 = "w\<lparr>hook_queue := rest\<rparr>"
  let ?key = "(fst head, fst (snd head))"
  show "fetch_times_zero w''"
  proof (cases "CaseInsensibleDict_contains lowered_pair (mc_items (the_cache c ?w1)) ?key")
    case True
    with r q c have "banlist w'' = banlist w \<and> mutelist w'' = mutelist w"
      by (cases c)
        (auto simp add: masklist_end_cb_def Let_def say_def unhooks split: sum.splits if_splits)
    with assms show ?thesis by (simp add: fetch_times_zero_def)
  next
    case False
    with r q c have "banlist w'' = banlist (put_cache c (initList (the_cache c ?w1) (fst head) (fst (snd head))) ?w1)
        \<and> mutelist w'' = mutelist (put_cache c (initList (the_cache c ?w1) (fst head) (fst (snd head))) ?w1)"
      by (cases c)
        (auto simp add: masklist_end_cb_def Let_def unhooks split: sum.splits if_splits)
    with assms show ?thesis
      by (cases c) (simp_all add: fetch_times_zero_def initList_def setitem_fetch_times MaskList_init_def)
  qed
qed

lemma fetch_time_test_never_skips:
  assumes "fetch_times_zero w" and "60 \<le> now"
  shows "\<not> (case CaseInsensibleDict_getitem lowered_pair (mc_items (the_cache self w)) (server, channel) of
             Inr ml \<Rightarrow> now - fetch_time ml < 60
           | Inl e \<Rightarrow> False)"
proof (cases "CaseInsensibleDict_getitem lowered_pair (mc_items (the_cache self w)) (server, channel)")
  case (Inl e)
  then show ?thesis by simp
next
  case (Inr ml)
  have "list_all (\<lambda>e. fetch_time (snd e) = 0) (mc_items (the_cache self w))"
    using assms(1) by (cases self) (simp_all add: fetch_times_zero_def)
  then have "fetch_time ml = 0"
    using getitem_value [OF Inr, of "\<lambda>ml. fetch_time ml = 0"] by simp
  with Inr assms(2) show ?thesis by simp
qed


text \<open>
  Claim C3 on the code: \<open>banlist.fetch\<close> for \<open>#chan\<close> at time 1000 queues the key and
  sends one list request; the end of the list pops the key and leaves \<open>fetch_time\<close> of
  the list at 0, since no statement of the module assigns it after \<open>__init__\<close>; the same
  fetch at time 1010 is therefore not skipped: the key is queued again and a second
  list request is sent.
\<close>

theorem C3_fetch_repeated_after_list_end:
  "hook_queue example_fetching = [(''freenode'', ''#chan'', ''b'')]
   \<and> w_sent example_fetching = [(''0x1'', ''/wait 1 /mode #chan b'')]
   \<and> \<not> isl (masklist_end_cb example_fetching)
   \<and> hook_queue (projr (masklist_end_cb example_fetching)) = []
   \<and> mc_items (banlist (projr (masklist_end_cb example_fetching)))
       = [((''freenode'', ''#chan''), \<lparr>ml_items = [], fetch_time = 0\<rparr>)]
   \<and> hook_queue (fetch 1010 Ban ''freenode'' ''#chan'' (projr (masklist_end_cb example_fetching)))
       = [(''freenode'', ''#chan'', ''b'')]
   \<and> w_sent (fetch 1010 Ban ''freenode'' ''#chan'' (projr (masklist_end_cb example_fetching)))
       = [(''0x1'', ''/wait 1 /mode #chan b''), (''0x1'', ''/wait 1 /mode #chan b'')]"
  by code_simp

end
